theory Spec2Isabelle
  imports Complex_Main "HOL-Library.AList"
begin

section \<open>Least-squares Monte Carlo pricing: the notebook's functions\<close>

text \<open>
  The notebook computes with PyTorch tensors of floating-point numbers. Tensor entries that the
  code obtains from finite inputs by addition, subtraction, multiplication, \<open>exp\<close>, \<open>clamp\<close>
  and comparison are modelled as exact reals (no rounding, no overflow). Division and everything
  computed from a quotient can leave the finite range (\<open>2 / 0\<close> is \<open>inf\<close> for a tensor, not an
  exception), so those entries are modelled by \<open>tfloat\<close>, the reals extended by the IEEE special
  values. Python exceptions are values of \<open>py_error\<close>. What single precision does to
  \<open>scale\<close> is examined on a second model of that function, \<open>scale_float32\<close>.
\<close>

datatype py_error = RuntimeError | ZeroDivisionError | KeyError | IndexError

datatype tfloat = Fin real | PInf | NInf | NaN

text \<open>A two-dimensional tensor: its shape and its rows.\<close>

datatype 'a tensor2 = Tensor2 (nrows: nat) (ncols: nat) (rows: "'a list list")

definition wf_tensor :: "'a tensor2 \<Rightarrow> bool" where
  "wf_tensor x \<longleftrightarrow> length (rows x) = nrows x \<and> list_all (\<lambda>r. length r = ncols x) (rows x)"

definition tmap :: "('a \<Rightarrow> 'b) \<Rightarrow> 'a tensor2 \<Rightarrow> 'b tensor2" where
  "tmap f x = Tensor2 (nrows x) (ncols x) (map (map f) (rows x))"

subsection \<open>first_one\<close>

text \<open>\<open>torch.cumprod(_, dim=1)\<close>: the running product along each row.\<close>

fun cumprod_from :: "real \<Rightarrow> real list \<Rightarrow> real list" where
  "cumprod_from acc [] = []"
| "cumprod_from acc (a # as) = (acc * a) # cumprod_from (acc * a) as"

definition cumprod_dim1 :: "real tensor2 \<Rightarrow> real tensor2" where
  "cumprod_dim1 x = Tensor2 (nrows x) (ncols x) (map (cumprod_from 1) (rows x))"

text \<open>
  \<open>x[:, :k]\<close> for \<open>k = n_columns - 1\<close>. For a tensor without columns Python's stop \<open>-1\<close>
  selects nothing, which is what the truncating subtraction on \<open>nat\<close> gives.
\<close>

definition slice_cols :: "nat \<Rightarrow> 'a tensor2 \<Rightarrow> 'a tensor2" where
  "slice_cols k x = Tensor2 (nrows x) (min k (ncols x)) (map (take k) (rows x))"

definition cat_dim1 :: "'a tensor2 \<Rightarrow> 'a tensor2 \<Rightarrow> 'a tensor2" where
  "cat_dim1 a b = Tensor2 (nrows a) (ncols a + ncols b) (map2 (@) (rows a) (rows b))"

text \<open>
  The elementwise product as \<open>first_one\<close> uses it. Both operands have the same shape, except
  when the payoff matrix has no column: then the \<open>n \<times> 1\<close> lag broadcasts against the
  \<open>n \<times> 0\<close> mask to an \<open>n \<times> 0\<close> tensor. In both cases the result has the shape of the right
  operand and holds the products of the paired entries.
\<close>

definition emul :: "real tensor2 \<Rightarrow> real tensor2 \<Rightarrow> real tensor2" where
  "emul a b = Tensor2 (nrows b) (ncols b) (map2 (map2 (*)) (rows a) (rows b))"

definition first_one :: "real tensor2 \<Rightarrow> real tensor2" where
  "first_one x0 =
     (let original = x0;
          x = tmap (\<lambda>v. if v > 0 then 1 else 0) x0;
          n_columns = ncols x;
          batch_size = nrows x;
          x_not = tmap (\<lambda>v. 1 - v) x;
          sum_x = tmap (\<lambda>v. min v 1) (cumprod_dim1 x_not);
          ones = Tensor2 batch_size 1 (replicate batch_size [1]);
          lag = slice_cols (n_columns - 1) sum_x;
          lag = cat_dim1 ones lag
      in emul original (emul lag x))"

subsection \<open>Arithmetic on tensor entries that may be non-finite\<close>

text \<open>
  IEEE 754 on the special values, exact on finite ones. A zero divisor is taken as \<open>+0\<close>: the
  two divisors of the code are \<open>xmax - xmin\<close>, which is \<open>+0\<close> when both are equal, and the
  integer \<open>n\<close>.
\<close>

definition inf_of_sign :: "real \<Rightarrow> tfloat" where
  "inf_of_sign s = (if s > 0 then PInf else if s < 0 then NInf else NaN)"

fun tsign :: "tfloat \<Rightarrow> real" where
  "tsign (Fin a) = sgn a"
| "tsign PInf = 1"
| "tsign NInf = - 1"
| "tsign NaN = 0"

definition fdiv :: "real \<Rightarrow> real \<Rightarrow> tfloat" where
  "fdiv a b = (if b = 0 then inf_of_sign a else Fin (a / b))"

fun tneg :: "tfloat \<Rightarrow> tfloat" where
  "tneg (Fin a) = Fin (- a)"
| "tneg PInf = NInf"
| "tneg NInf = PInf"
| "tneg NaN = NaN"

fun tadd :: "tfloat \<Rightarrow> tfloat \<Rightarrow> tfloat" where
  "tadd (Fin a) (Fin b) = Fin (a + b)"
| "tadd NaN y = NaN"
| "tadd x NaN = NaN"
| "tadd PInf NInf = NaN"
| "tadd NInf PInf = NaN"
| "tadd PInf y = PInf"
| "tadd NInf y = NInf"
| "tadd (Fin a) y = y"

definition tsub :: "tfloat \<Rightarrow> tfloat \<Rightarrow> tfloat" where
  "tsub x y = tadd x (tneg y)"

fun tmul :: "tfloat \<Rightarrow> tfloat \<Rightarrow> tfloat" where
  "tmul (Fin a) (Fin b) = Fin (a * b)"
| "tmul NaN y = NaN"
| "tmul x NaN = NaN"
| "tmul x y = inf_of_sign (tsign x * tsign y)"

text \<open>\<open>x > y\<close>: false as soon as one side is NaN.\<close>

fun tgt :: "tfloat \<Rightarrow> tfloat \<Rightarrow> bool" where
  "tgt (Fin a) (Fin b) = (a > b)"
| "tgt NaN y = False"
| "tgt x NaN = False"
| "tgt x PInf = False"
| "tgt PInf y = True"
| "tgt NInf y = False"
| "tgt (Fin a) NInf = True"

definition tsum :: "tfloat list \<Rightarrow> tfloat" where
  "tsum xs = foldr tadd xs (Fin 0)"

fun is_fin :: "tfloat \<Rightarrow> bool" where
  "is_fin (Fin a) = True"
| "is_fin x = False"

fun the_fin :: "tfloat \<Rightarrow> real" where
  "the_fin (Fin a) = a"
| "the_fin x = 0"

definition ebind :: "'e + 'a \<Rightarrow> ('a \<Rightarrow> 'e + 'b) \<Rightarrow> 'e + 'b" where
  "ebind x f = (case x of Inl e \<Rightarrow> Inl e | Inr v \<Rightarrow> f v)"

subsection \<open>scale\<close>

text \<open>\<open>torch.min\<close> and \<open>torch.max\<close> of a vector raise on an empty tensor.\<close>

definition torch_min :: "real list \<Rightarrow> py_error + real" where
  "torch_min x = (if x = [] then Inl RuntimeError else Inr (Min (set x)))"

definition torch_max :: "real list \<Rightarrow> py_error + real" where
  "torch_max x = (if x = [] then Inl RuntimeError else Inr (Max (set x)))"

definition scale :: "real list \<Rightarrow> py_error + tfloat list" where
  "scale x =
     ebind (torch_min x) (\<lambda>xmin.
     ebind (torch_max x) (\<lambda>xmax.
       let a = fdiv 2 (xmax - xmin);
           b = tmul (tmul (Fin (- 0.5)) a) (Fin (xmin + xmax))
       in Inr (map (\<lambda>v. tadd (tmul a (Fin v)) b) x)))"

subsection \<open>chebyshev_basis\<close>

text \<open>
  \<open>torch.stack(vs, dim=1)\<close>: the vectors become the columns of a matrix; an empty list is
  refused.
\<close>

fun stack_dim1 :: "'a list list \<Rightarrow> py_error + 'a tensor2" where
  "stack_dim1 [] = Inl RuntimeError"
| "stack_dim1 (c # cs) =
     Inr (Tensor2 (length c) (Suc (length cs)) (map (\<lambda>i. map (\<lambda>v. v ! i) (c # cs)) [0..<length c]))"

definition column :: "nat \<Rightarrow> 'a tensor2 \<Rightarrow> 'a list" where
  "column j X = map (\<lambda>row. row ! j) (rows X)"

definition ones_like :: "tfloat list \<Rightarrow> tfloat list" where
  "ones_like x = map (\<lambda>_. Fin 1) x"

text \<open>
  The dictionary \<open>B\<close> receives the keys \<open>0, 1, 2, \<dots>\<close> in this order, so it is the list of
  its values and \<open>B[n] = v\<close> appends \<open>v\<close> at position \<open>n\<close>.
\<close>

definition cheb_next :: "tfloat list \<Rightarrow> tfloat list list \<Rightarrow> nat \<Rightarrow> tfloat list list" where
  "cheb_next x B n =
     B @ [map2 tsub (map2 tmul (map (tmul (Fin 2)) x) (B ! (n - 1))) (B ! (n - 2))]"

definition cheb_columns :: "tfloat list \<Rightarrow> int \<Rightarrow> tfloat list list" where
  "cheb_columns x k = fold (\<lambda>n B. cheb_next x B n) [2..<nat k] [ones_like x, x]"

definition chebyshev_basis :: "tfloat list \<Rightarrow> int \<Rightarrow> py_error + tfloat tensor2" where
  "chebyshev_basis x k = stack_dim1 (cheb_columns x k)"

subsection \<open>ridge_regression\<close>

definition eye :: "int \<Rightarrow> py_error + tfloat tensor2" where
  "eye k =
     (if k < 0 then Inl RuntimeError
      else Inr (Tensor2 (nat k) (nat k)
             (map (\<lambda>i. map (\<lambda>j. if i = j then Fin 1 else Fin 0) [0..<nat k]) [0..<nat k])))"

text \<open>\<open>Y.reshape(-1, 1)\<close>\<close>

definition reshape_col :: "'a list \<Rightarrow> 'a tensor2" where
  "reshape_col Y = Tensor2 (length Y) 1 (map (\<lambda>y. [y]) Y)"

definition transpose_t :: "'a tensor2 \<Rightarrow> 'a tensor2" where
  "transpose_t X = Tensor2 (ncols X) (nrows X) (map (\<lambda>j. column j X) [0..<ncols X])"

definition matmul :: "tfloat tensor2 \<Rightarrow> tfloat tensor2 \<Rightarrow> py_error + tfloat tensor2" where
  "matmul A B =
     (if ncols A \<noteq> nrows B then Inl RuntimeError
      else Inr (Tensor2 (nrows A) (ncols B)
             (map (\<lambda>row. map (\<lambda>j. tsum (map2 tmul row (column j B))) [0..<ncols B]) (rows A))))"

text \<open>The sum of two matrices under PyTorch's broadcasting: a dimension of size 1 is repeated.\<close>

definition bdim :: "nat \<Rightarrow> nat \<Rightarrow> nat option" where
  "bdim a b = (if a = b then Some a else if a = 1 then Some b else if b = 1 then Some a else None)"

definition badd :: "tfloat tensor2 \<Rightarrow> tfloat tensor2 \<Rightarrow> py_error + tfloat tensor2" where
  "badd A B =
     (case (bdim (nrows A) (nrows B), bdim (ncols A) (ncols B)) of
        (Some n, Some k) \<Rightarrow>
          Inr (Tensor2 n k
            (map (\<lambda>i. map (\<lambda>j.
                 tadd (rows A ! (if nrows A = 1 then 0 else i) ! (if ncols A = 1 then 0 else j))
                      (rows B ! (if nrows B = 1 then 0 else i) ! (if ncols B = 1 then 0 else j)))
               [0..<k]) [0..<n]))
      | _ \<Rightarrow> Inl RuntimeError)"

text \<open>
  \<open>torch.solve(B, A)\<close> is PyTorch's LU solver, not code of the notebook. It is modelled by its
  contract: \<open>A\<close> must be square with as many rows as \<open>B\<close>; on finite entries the result is the
  exact solution of \<open>A X = B\<close>, found by elimination, and a singular \<open>A\<close> is refused; entries
  that are not finite spread to the whole result. (In floating point a matrix that is exactly
  singular can pass the factorisation unnoticed, and the solver then returns numbers.)
\<close>

fun pivot_split :: "real list list \<Rightarrow> (real list \<times> real list list) option" where
  "pivot_split [] = None"
| "pivot_split (r # rs) =
     (if hd r \<noteq> 0 then Some (r, rs)
      else (case pivot_split rs of None \<Rightarrow> None | Some (p, others) \<Rightarrow> Some (p, r # others)))"

text \<open>
  \<open>solve_aug k eqs\<close>: each of the \<open>k\<close> equations is the list of its \<open>k\<close> coefficients followed
  by its right-hand sides; the result has one row of solutions per unknown.
\<close>

fun solve_aug :: "nat \<Rightarrow> real list list \<Rightarrow> real list list option" where
  "solve_aug 0 eqs = Some []"
| "solve_aug (Suc k) eqs =
     (case pivot_split eqs of
        None \<Rightarrow> None
      | Some (p, others) \<Rightarrow>
          let pn = map (\<lambda>v. v / hd p) (tl p);
              reduced = map (\<lambda>r. map2 (\<lambda>a b. a - hd r * b) (tl r) pn) others
          in (case solve_aug k reduced of
                None \<Rightarrow> None
              | Some sol \<Rightarrow>
                  Some (map (\<lambda>c. pn ! (k + c) - sum_list (map (\<lambda>i. pn ! i * sol ! i ! c) [0..<k]))
                          [0..<length pn - k] # sol)))"

definition all_finite :: "tfloat tensor2 \<Rightarrow> bool" where
  "all_finite X = list_all (list_all is_fin) (rows X)"

definition torch_solve :: "tfloat tensor2 \<Rightarrow> tfloat tensor2 \<Rightarrow> py_error + tfloat tensor2" where
  "torch_solve B A =
     (if nrows A \<noteq> ncols A \<or> nrows B \<noteq> nrows A then Inl RuntimeError
      else if \<not> (all_finite A \<and> all_finite B)
        then Inr (Tensor2 (nrows B) (ncols B) (replicate (nrows B) (replicate (ncols B) NaN)))
      else (case solve_aug (nrows A)
                   (map2 (@) (map (map the_fin) (rows A)) (map (map the_fin) (rows B))) of
              None \<Rightarrow> Inl RuntimeError
            | Some sol \<Rightarrow> Inr (Tensor2 (nrows B) (ncols B) (map (map Fin) sol))))"

text \<open>
  \<open>torch.squeeze\<close> of the one-column product: the vector of its entries. (For a single row
  PyTorch returns a scalar tensor, which broadcasts as the one-element vector does.)
\<close>

definition squeeze :: "'a tensor2 \<Rightarrow> 'a list" where
  "squeeze Z = concat (rows Z)"

text \<open>\<open>order\<close> is the notebook's global: the identity has that size, whatever \<open>X\<close> is.\<close>

definition ridge_regression :: "int \<Rightarrow> tfloat tensor2 \<Rightarrow> tfloat list \<Rightarrow> real \<Rightarrow> py_error + tfloat list" where
  "ridge_regression order X Y lam =
     ebind (eye order) (\<lambda>I.
       let YY = reshape_col Y in
       ebind (matmul (transpose_t X) YY) (\<lambda>XtY.
       ebind (matmul (transpose_t X) X) (\<lambda>XtX.
       ebind (badd XtX (tmap (tmul (Fin lam)) I)) (\<lambda>A.
       ebind (torch_solve XtY A) (\<lambda>\<beta>.
       ebind (matmul X \<beta>) (\<lambda>fit. Inr (squeeze fit)))))))"

subsection \<open>where and advance\<close>

definition where_fn :: "bool list \<Rightarrow> real list \<Rightarrow> real list \<Rightarrow> real list" where
  "where_fn cond x_1 x_2 =
     (let c = map (\<lambda>b. if b then 1 else 0) cond
      in map2 (+) (map2 (*) c x_1) (map2 (*) (map (\<lambda>v. 1 - v) c) x_2))"

record params =
  Spot :: real
  sigma :: real
  strike_K :: real
  rate_r :: real
  maturity_T :: real
  order :: int
  n_paths :: int
  m_steps :: int

text \<open>\<open>advance\<close>; the vector \<open>Z\<close> is the value of its call of \<open>torch.randn(n)\<close>.\<close>

definition advance :: "params \<Rightarrow> real \<Rightarrow> real list \<Rightarrow> real list \<Rightarrow> real list" where
  "advance p dt Z S =
     (let dB = map (\<lambda>z. sqrt dt * z) Z
      in map2 (+) (map2 (+) S (map (\<lambda>s. rate_r p * s * dt) S))
                  (map2 (*) (map (\<lambda>s. sigma p * s) S) dB))"

subsection \<open>The main code\<close>

text \<open>
  The dictionaries \<open>S\<close>, \<open>cashflow\<close>, \<open>value\<close>, \<open>continuation_value\<close> and \<open>payoff\<close> are
  keyed by time labels. A dictionary is the list of its items in insertion order: storing under
  a key that is present replaces the value in place, storing under a new key appends the item
  (\<open>AList.update\<close>), and reading a missing key raises \<open>KeyError\<close>. Two labels are the same key
  when they are the same number.

  The labels are computed as the notebook computes them, in exact arithmetic:
  \<open>\<Delta>t = T / m\<close>, \<open>np.arange(\<Delta>t, T + \<Delta>t, \<Delta>t)\<close>, \<open>t - \<Delta>t\<close>, \<open>t + \<Delta>t\<close>, and \<open>np.round(\<cdot>, 6)\<close>,
  which multiplies by \<open>10\<^sup>6\<close>, rounds to the nearest integer (a half to the even neighbour)
  and divides by \<open>10\<^sup>6\<close>. Only the binary rounding of the float64 labels is not modelled: for
  \<open>T = 0.1\<close> and \<open>m = 2\<close>, say, the float64 quotient in \<open>np.arange\<close> exceeds 2, a third label
  \<open>0.15\<close> appears and the notebook stops with \<open>KeyError\<close>, while the exact grid has the two
  labels \<open>0.05\<close> and \<open>0.1\<close>. The maturity is positive (the notebook sets \<open>T = 1\<close>). \<open>rnd k i\<close> is the \<open>i\<close>-th entry of the
  vector that the \<open>k\<close>-th call of \<open>torch.randn(n)\<close> returns.
\<close>

definition rint :: "real \<Rightarrow> int" where
  "rint x =
     (let f = \<lfloor>x\<rfloor>; d = x - of_int f
      in if d < 1 / 2 then f else if 1 / 2 < d then f + 1 else if even f then f else f + 1)"

definition round6 :: "real \<Rightarrow> real" where
  "round6 x = of_int (rint (x * 1000000)) / 1000000"

definition arange :: "real \<Rightarrow> real \<Rightarrow> real \<Rightarrow> real list" where
  "arange start stop step =
     map (\<lambda>i. start + real i * step) [0..<nat \<lceil>(stop - start) / step\<rceil>]"

definition t_span :: "params \<Rightarrow> real list" where
  "t_span p =
     (let dt = maturity_T p / real_of_int (m_steps p)
      in map round6 (arange dt (maturity_T p + dt) dt))"

definition getitem :: "(real \<times> 'v) list \<Rightarrow> real \<Rightarrow> py_error + 'v" where
  "getitem d key = (case map_of d key of None \<Rightarrow> Inl KeyError | Some v \<Rightarrow> Inr v)"

text \<open>A \<open>for\<close> loop that threads a state and stops at the first exception.\<close>

fun for_each :: "('a \<Rightarrow> 's \<Rightarrow> py_error + 's) \<Rightarrow> 'a list \<Rightarrow> 's \<Rightarrow> py_error + 's" where
  "for_each body [] s = Inr s"
| "for_each body (x # xs) s = ebind (body x s) (for_each body xs)"

text \<open>A dictionary comprehension \<open>{t: f(t) for t in ts}\<close>.\<close>

definition dict_comp :: "(real \<Rightarrow> py_error + 'v) \<Rightarrow> real list \<Rightarrow> py_error + (real \<times> 'v) list" where
  "dict_comp f ts = for_each (\<lambda>t d. ebind (f t) (\<lambda>v. Inr (AList.update t v d))) ts []"

text \<open>
  The body of the simulation loop. The state is the number of the next call of
  \<open>torch.randn\<close> and the dictionary \<open>S\<close>.
\<close>

definition simulate_step ::
  "params \<Rightarrow> real \<Rightarrow> (nat \<Rightarrow> nat \<Rightarrow> real) \<Rightarrow> real \<Rightarrow> nat \<times> (real \<times> real list) list
     \<Rightarrow> py_error + nat \<times> (real \<times> real list) list" where
  "simulate_step p dt rnd t state =
     (case state of
        (k, S) \<Rightarrow>
          let t_previous = round6 (t - dt)
          in ebind (getitem S t_previous) (\<lambda>S_previous.
               Inr (Suc k,
                    AList.update t
                      (advance p dt (map (rnd k) [0..<nat (n_paths p)]) S_previous) S)))"

text \<open>
  The parameter cell and the simulation: \<open>T / m\<close> raises for \<open>m = 0\<close>, \<open>torch.ones(n)\<close> for a
  negative \<open>n\<close>. The result is the dictionary \<open>S\<close>.
\<close>

definition simulation :: "params \<Rightarrow> (nat \<Rightarrow> nat \<Rightarrow> real) \<Rightarrow> py_error + (real \<times> real list) list" where
  "simulation p rnd =
     (if m_steps p = 0 then Inl ZeroDivisionError
      else if n_paths p < 0 then Inl RuntimeError
      else
        let dt = maturity_T p / real_of_int (m_steps p)
        in ebind (for_each (simulate_step p dt rnd) (t_span p)
                    (1, [(0, replicate (nat (n_paths p)) (Spot p))]))
             (\<lambda>state. Inr (snd state)))"

text \<open>\<open>cashflow = {t: torch.clamp(K - S[t], min=0.) for t in t_span}\<close>\<close>

definition cashflow_table ::
  "params \<Rightarrow> (real \<times> real list) list \<Rightarrow> py_error + (real \<times> real list) list" where
  "cashflow_table p S =
     dict_comp (\<lambda>t. ebind (getitem S t) (\<lambda>S_t. Inr (map (\<lambda>s. max (strike_K p - s) 0) S_t)))
       (t_span p)"

text \<open>
  The body of the backward loop; the state is the pair of the dictionaries \<open>value\<close> and
  \<open>continuation_value\<close>.
\<close>

definition backward_step ::
  "params \<Rightarrow> real \<Rightarrow> real \<Rightarrow> (real \<times> real list) list \<Rightarrow> (real \<times> real list) list \<Rightarrow> real
     \<Rightarrow> (real \<times> real list) list \<times> (real \<times> tfloat list) list
     \<Rightarrow> py_error + (real \<times> real list) list \<times> (real \<times> tfloat list) list" where
  "backward_step p dt discount S cashflow t state =
     (case state of
        (value, continuation_value) \<Rightarrow>
          let t_next = round6 (t + dt)
          in ebind (getitem S t) (\<lambda>S_t.
             ebind (scale S_t) (\<lambda>scaled.
             ebind (chebyshev_basis scaled (order p)) (\<lambda>basis.
             ebind (getitem value t_next) (\<lambda>value_next.
             ebind (ridge_regression (order p) basis (map Fin value_next) 100) (\<lambda>cv_t.
             ebind (getitem cashflow t) (\<lambda>cashflow_t.
               Inr (AList.update t
                      (map ((*) discount)
                         (where_fn (map2 tgt (map Fin cashflow_t) cv_t) cashflow_t value_next))
                      value,
                    AList.update t cv_t continuation_value))))))))"

text \<open>
  The recursion: \<open>value = {T: cashflow[T] * discount}\<close>,
  \<open>continuation_value = {T: torch.zeros(n)}\<close>, then the loop over \<open>t_span[::-1][1:]\<close>.
\<close>

definition backward_pass ::
  "params \<Rightarrow> (real \<times> real list) list \<Rightarrow> (real \<times> real list) list
     \<Rightarrow> py_error + (real \<times> real list) list \<times> (real \<times> tfloat list) list" where
  "backward_pass p S cashflow =
     (let dt = maturity_T p / real_of_int (m_steps p);
          discount = exp (- rate_r p * dt)
      in ebind (getitem cashflow (maturity_T p)) (\<lambda>cashflow_T.
           for_each (backward_step p dt discount S cashflow) (tl (rev (t_span p)))
             ([(maturity_T p, map (\<lambda>c. c * discount) cashflow_T)],
              [(maturity_T p, replicate (nat (n_paths p)) (Fin 0))])))"

text \<open>\<open>where(continuation_value[t] > cashflow[t], torch.zeros(n), cashflow[t])\<close>\<close>

definition payoff_at :: "nat \<Rightarrow> tfloat list \<Rightarrow> real list \<Rightarrow> real list" where
  "payoff_at n continuation_value_t cashflow_t =
     where_fn (map2 tgt continuation_value_t (map Fin cashflow_t)) (replicate n 0) cashflow_t"

definition payoff_table ::
  "params \<Rightarrow> (real \<times> real list) list \<Rightarrow> (real \<times> tfloat list) list
     \<Rightarrow> py_error + (real \<times> real list) list" where
  "payoff_table p cashflow continuation_value =
     dict_comp (\<lambda>t. ebind (getitem continuation_value t) (\<lambda>cv_t.
                    ebind (getitem cashflow t) (\<lambda>cashflow_t.
                      Inr (payoff_at (nat (n_paths p)) cv_t cashflow_t))))
       (t_span p)"

text \<open>The discounted payoffs, stacked, summed and divided by \<open>n\<close>.\<close>

definition price_of :: "params \<Rightarrow> real \<Rightarrow> real tensor2 \<Rightarrow> py_error + tfloat" where
  "price_of p dt payoff =
     (if int (ncols payoff) < m_steps p then Inl IndexError
      else
        let discounted_payoff =
              map (\<lambda>i. map (\<lambda>v. v * exp (- rate_r p * real i * dt)) (column i payoff))
                [0..<nat (m_steps p)]
        in if discounted_payoff = [] then Inl RuntimeError
           else Inr (fdiv (sum_list (map sum_list discounted_payoff)) (real_of_int (n_paths p))))"

text \<open>The dictionaries after the backward loop.\<close>

definition backward_tables ::
  "params \<Rightarrow> (nat \<Rightarrow> nat \<Rightarrow> real)
     \<Rightarrow> py_error + (real \<times> real list) list \<times> (real \<times> tfloat list) list" where
  "backward_tables p rnd =
     ebind (simulation p rnd) (\<lambda>S.
     ebind (cashflow_table p S) (\<lambda>cashflow.
       backward_pass p S cashflow))"

text \<open>The payoff matrix after \<open>first_one\<close>.\<close>

definition selected_payoff :: "params \<Rightarrow> (nat \<Rightarrow> nat \<Rightarrow> real) \<Rightarrow> py_error + real tensor2" where
  "selected_payoff p rnd =
     ebind (simulation p rnd) (\<lambda>S.
     ebind (cashflow_table p S) (\<lambda>cashflow.
     ebind (backward_pass p S cashflow) (\<lambda>tables.
     ebind (payoff_table p cashflow (snd tables)) (\<lambda>payoff.
     ebind (stack_dim1 (map snd payoff)) (\<lambda>payoff.
       Inr (first_one payoff))))))"

definition lsmc :: "params \<Rightarrow> (nat \<Rightarrow> nat \<Rightarrow> real) \<Rightarrow> py_error + tfloat" where
  "lsmc p rnd =
     ebind (selected_payoff p rnd)
       (price_of p (maturity_T p / real_of_int (m_steps p)))"

subsection \<open>scale in single precision\<close>

text \<open>
  The tensors of the notebook hold single-precision numbers. To see what rounding does to
  \<open>scale\<close>, the function is modelled a second time with every operation rounded as IEEE 754
  binary32 rounds it: to the nearest representable number, a tie to the one with an even last
  bit, with gradual underflow, and with overflow to an infinity. \<open>float32 x\<close> looks for the
  binade \<open>2\<^sup>e \<le> \<bar>x\<bar> < 2\<^sup>e\<^sup>+\<^sup>1\<close> (\<open>e\<close> from \<open>-126\<close> to \<open>127\<close>; smaller numbers are
  subnormal and share the exponent \<open>-126\<close>) and rounds \<open>x\<close> to a multiple of \<open>2\<^sup>e\<^sup>-\<^sup>2\<^sup>3\<close>. The
  sign of a zero is not kept.
\<close>

definition float32 :: "real \<Rightarrow> tfloat" where
  "float32 x =
     (case find (\<lambda>e. \<bar>x\<bar> < 2 powi (e + 1)) [- 126..127] of
        None \<Rightarrow> inf_of_sign x
      | Some e \<Rightarrow>
          let ulp = 2 powi (e - 23); y = real_of_int (rint (x / ulp)) * ulp
          in if 2 powi 128 \<le> \<bar>y\<bar> then inf_of_sign x else Fin y)"

fun round32 :: "tfloat \<Rightarrow> tfloat" where
  "round32 (Fin x) = float32 x"
| "round32 x = x"

text \<open>Division on the extended values (a zero divisor is taken as \<open>+0\<close>).\<close>

fun tdiv :: "tfloat \<Rightarrow> tfloat \<Rightarrow> tfloat" where
  "tdiv (Fin a) (Fin b) = fdiv a b"
| "tdiv NaN y = NaN"
| "tdiv x NaN = NaN"
| "tdiv (Fin a) y = Fin 0"
| "tdiv x (Fin b) = inf_of_sign (tsign x * (if b < 0 then - 1 else 1))"
| "tdiv x y = NaN"

text \<open>
  \<open>scale\<close> on a vector of single-precision numbers: \<open>xmax - xmin\<close>, the quotient, \<open>-0.5 * a\<close>,
  \<open>xmin + xmax\<close>, their product, \<open>a * x\<close> and the final sum are each rounded.
\<close>

definition scale_float32 :: "real list \<Rightarrow> py_error + tfloat list" where
  "scale_float32 x =
     ebind (torch_min x) (\<lambda>xmin.
     ebind (torch_max x) (\<lambda>xmax.
       let a = round32 (tdiv (Fin 2) (float32 (xmax - xmin)));
           b = round32 (tmul (round32 (tmul (Fin (- 0.5)) a)) (float32 (xmin + xmax)))
       in Inr (map (\<lambda>v. round32 (tadd (round32 (tmul a (Fin v))) b)) x)))"

subsection \<open>Auxiliary notions for the proofs\<close>

text \<open>What \<open>first_one\<close> computes on one row of a matrix with \<open>k\<close> columns.\<close>

definition first_one_row :: "nat \<Rightarrow> real list \<Rightarrow> real list" where
  "first_one_row k r =
     map2 (*) r (map2 (*)
       (1 # take (k - 1) (map (\<lambda>v. min v 1)
          (cumprod_from 1 (map (\<lambda>v. 1 - v) (map (\<lambda>v. if v > 0 then 1 else 0) r)))))
       (map (\<lambda>v. if v > 0 then 1 else 0) r))"

text \<open>The matrix of the selector's test: three paths, four dates.\<close>

definition payoff_example :: "real tensor2" where
  "payoff_example = Tensor2 3 4 [[0, 2, 0, 3], [0, 0, 0, 0], [5, 0, 1, 0]]"

text \<open>The recurrence of \<open>chebyshev_basis\<close> on columns.\<close>

definition cheb_rec :: "tfloat list \<Rightarrow> tfloat list \<Rightarrow> tfloat list \<Rightarrow> tfloat list" where
  "cheb_rec x u v = map2 tsub (map2 tmul (map (tmul (Fin 2)) x) u) v"

text \<open>
  A small run: two paths, two dates one time unit apart, no interest, polynomial order 2. The
  draws move the first path from 40 to 38 and then to 19, the second from 40 to 60, where it
  stays.
\<close>

definition small_params :: "real \<Rightarrow> params" where
  "small_params K =
     \<lparr>Spot = 40, sigma = 1, strike_K = K, rate_r = 0, maturity_T = 2, order = 2,
      n_paths = 2, m_steps = 2\<rparr>"

definition small_draws :: "nat \<Rightarrow> nat \<Rightarrow> real" where
  "small_draws t i =
     (if t = 1 then (if i = 0 then - (1 / 20) else 1 / 2) else (if i = 0 then - (1 / 2) else 0))"

text \<open>
  The notebook's parameters with a single path, a single time step and the polynomial order 0;
  and draws that are all zero.
\<close>

definition one_step_params :: params where
  "one_step_params =
     \<lparr>Spot = 36, sigma = 1 / 5, strike_K = 40, rate_r = 3 / 50, maturity_T = 1, order = 0,
      n_paths = 1, m_steps = 1\<rparr>"

definition zero_draws :: "nat \<Rightarrow> nat \<Rightarrow> real" where
  "zero_draws t i = 0"



text \<open>
  Matrices of reals, for the statement of the normal equations: the scalar product, the matrix
  product, \<open>\<lambda> I\<close> and the sum of two matrices of the same shape.
\<close>

definition dot :: "real list \<Rightarrow> real list \<Rightarrow> real" where
  "dot a b = sum_list (map2 (*) a b)"

definition rmatmul :: "real tensor2 \<Rightarrow> real tensor2 \<Rightarrow> real tensor2" where
  "rmatmul A B =
     Tensor2 (nrows A) (ncols B) (map (\<lambda>row. map (\<lambda>j. dot row (column j B)) [0..<ncols B]) (rows A))"

definition scaled_identity :: "nat \<Rightarrow> real \<Rightarrow> real tensor2" where
  "scaled_identity M lam =
     Tensor2 M M (map (\<lambda>i. map (\<lambda>j. if i = j then lam else 0) [0..<M]) [0..<M])"

definition radd :: "real tensor2 \<Rightarrow> real tensor2 \<Rightarrow> real tensor2" where
  "radd A B =
     Tensor2 (nrows A) (ncols A)
       (map (\<lambda>i. map (\<lambda>j. rows A ! i ! j + rows B ! i ! j) [0..<ncols A]) [0..<nrows A])"

section \<open>Properties\<close>

subsection \<open>The payoff selector\<close>

lemma length_cumprod_from: "length (cumprod_from acc xs) = length xs"
  by (induction xs arbitrary: acc) auto

lemma cumprod_from_nth:
  "j < length xs \<Longrightarrow> cumprod_from acc xs ! j = acc * prod_list (take (Suc j) xs)"
proof (induction xs arbitrary: acc j)
  case Nil
  then show ?case by simp
next
  case (Cons a as)
  show ?case
  proof (cases j)
    case 0
    then show ?thesis by simp
  next
    case (Suc k)
    with Cons.prems have "k < length as" by simp
    from Cons.IH [OF this, of "acc * a"] Suc show ?thesis
      by (simp add: mult.assoc)
  qed
qed

lemma prod_list_not_positive:
  "k \<le> length r \<Longrightarrow>
   prod_list (take k (map (\<lambda>v. 1 - v) (map (\<lambda>v. if v > 0 then 1 else 0) r))) =
     (if \<forall>j<k. \<not> r ! j > (0::real) then 1 else (0::real))"
proof (induction k)
  case 0
  then show ?case by simp
next
  case (Suc k)
  then have k: "k < length r" by simp
  have "take (Suc k) (map (\<lambda>v. 1 - v) (map (\<lambda>v. if v > 0 then 1 else (0::real)) r))
      = take k (map (\<lambda>v. 1 - v) (map (\<lambda>v. if v > 0 then 1 else 0) r))
        @ [1 - (if r ! k > 0 then 1 else 0)]"
    using k by (simp add: take_Suc_conv_app_nth)
  then show ?case
    using Suc k by (auto simp: less_Suc_eq)
qed

lemma rows_first_one:
  "length (rows x) = nrows x \<Longrightarrow> rows (first_one x) = map (first_one_row (ncols x)) (rows x)"
  apply (simp add: first_one_def Let_def emul_def cat_dim1_def slice_cols_def tmap_def
      cumprod_dim1_def)
  apply (rule nth_equalityI)
   apply simp
  apply (simp add: first_one_row_def)
  done

lemma shape_first_one: "nrows (first_one x) = nrows x" "ncols (first_one x) = ncols x"
  by (simp_all add: first_one_def Let_def emul_def tmap_def)

lemma length_first_one_row: "length r = k \<Longrightarrow> length (first_one_row k r) = k"
  by (cases k) (auto simp: first_one_row_def length_cumprod_from)

lemma first_one_row_nth:
  assumes "c < length r"
  shows "first_one_row (length r) r ! c =
     (if r ! c > 0 \<and> (\<forall>j<c. \<not> r ! j > 0) then r ! c else 0)"
proof (cases c)
  case 0
  with assms show ?thesis
    by (cases r) (auto simp: first_one_row_def)
next
  case (Suc d)
  with assms have d: "d < length r - 1" "d < length r" by simp_all
  let ?xn = "map (\<lambda>v. 1 - v) (map (\<lambda>v. if v > 0 then 1 else (0::real)) r)"
  have cp: "cumprod_from 1 ?xn ! d = (if \<forall>j<Suc d. \<not> r ! j > 0 then 1 else 0)"
    using d cumprod_from_nth [of d ?xn 1] prod_list_not_positive [of "Suc d" r] by simp
  have lag: "(1 # take (length r - 1) (map (\<lambda>v. min v 1) (cumprod_from 1 ?xn))) ! c
      = (if \<forall>j<c. \<not> r ! j > 0 then 1 else 0)"
    using d Suc cp by (simp add: length_cumprod_from)
  have "first_one_row (length r) r ! c
      = r ! c * ((1 # take (length r - 1) (map (\<lambda>v. min v 1) (cumprod_from 1 ?xn))) ! c
                 * (if r ! c > 0 then 1 else 0))"
    using assms d by (simp add: first_one_row_def length_cumprod_from)
  with lag show ?thesis by simp
qed

lemma wf_first_one: "wf_tensor x \<Longrightarrow> wf_tensor (first_one x)"
  by (simp add: wf_tensor_def rows_first_one shape_first_one list_all_iff length_first_one_row)

lemma first_one_entry:
  assumes "wf_tensor x" and "i < nrows x" and "c < ncols x"
  shows "rows (first_one x) ! i ! c =
     (if 0 < rows x ! i ! c \<and> (\<forall>j<c. \<not> 0 < rows x ! i ! j) then rows x ! i ! c else 0)"
proof -
  from assms have len: "length (rows x) = nrows x" and row: "length (rows x ! i) = ncols x"
    by (simp_all add: wf_tensor_def list_all_length)
  from len assms(2) have "rows (first_one x) ! i = first_one_row (length (rows x ! i)) (rows x ! i)"
    by (simp add: rows_first_one row)
  with first_one_row_nth [of c "rows x ! i"] assms(3) row show ?thesis
    by simp
qed

text \<open>
  C1. For a payoff matrix \<open>x\<close> (\<open>n\<close> rows, \<open>K\<close> columns) \<open>first_one\<close> returns a matrix of the
  same shape. In each row the entry of the first column with a strictly positive payoff is
  kept, in that column, and every other entry is zero; so at most one entry of the row is not
  zero, and a row without a strictly positive payoff becomes a row of zeros.
\<close>

theorem first_one_first_positive:
  assumes "wf_tensor x" and "i < nrows x"
  shows "wf_tensor (first_one x) \<and> nrows (first_one x) = nrows x \<and> ncols (first_one x) = ncols x
    \<and> (\<forall>c<ncols x. 0 < rows x ! i ! c \<longrightarrow> (\<forall>j<c. \<not> 0 < rows x ! i ! j) \<longrightarrow>
          rows (first_one x) ! i ! c = rows x ! i ! c
          \<and> (\<forall>d<ncols x. d \<noteq> c \<longrightarrow> rows (first_one x) ! i ! d = 0))
    \<and> (\<forall>c<ncols x. \<forall>d<ncols x.
          rows (first_one x) ! i ! c \<noteq> 0 \<longrightarrow> rows (first_one x) ! i ! d \<noteq> 0 \<longrightarrow> c = d)
    \<and> ((\<forall>c<ncols x. \<not> 0 < rows x ! i ! c) \<longrightarrow> (\<forall>c<ncols x. rows (first_one x) ! i ! c = 0))"
proof -
  let ?r = "rows x ! i" and ?out = "rows (first_one x) ! i"
  have entry: "?out ! c = (if 0 < ?r ! c \<and> (\<forall>j<c. \<not> 0 < ?r ! j) then ?r ! c else 0)"
    if "c < ncols x" for c
    using first_one_entry [OF assms that] .
  have first: "?out ! c = ?r ! c \<and> (\<forall>d<ncols x. d \<noteq> c \<longrightarrow> ?out ! d = 0)"
    if c: "c < ncols x" and pos: "0 < ?r ! c" and before: "\<forall>j<c. \<not> 0 < ?r ! j" for c
  proof -
    have "?out ! d = 0" if d: "d < ncols x" and ne: "d \<noteq> c" for d
    proof (cases "d < c")
      case True
      with before have "\<not> 0 < ?r ! d" by simp
      with entry [OF d] show ?thesis by simp
    next
      case False
      with ne have "c < d" by simp
      with pos have "\<not> (\<forall>j<d. \<not> 0 < ?r ! j)" by blast
      with entry [OF d] show ?thesis by simp
    qed
    moreover have "?out ! c = ?r ! c"
      using entry [OF c] pos before by simp
    ultimately show ?thesis by blast
  qed
  have unique: "c = d"
    if c: "c < ncols x" and d: "d < ncols x" and nc: "?out ! c \<noteq> 0" and nd: "?out ! d \<noteq> 0"
    for c d
  proof -
    from entry [OF c] nc have fc: "0 < ?r ! c" "\<forall>j<c. \<not> 0 < ?r ! j"
      by (simp_all split: if_splits)
    from entry [OF d] nd have fd: "0 < ?r ! d" "\<forall>j<d. \<not> 0 < ?r ! j"
      by (simp_all split: if_splits)
    from fc fd have "\<not> c < d" "\<not> d < c" by blast+
    then show ?thesis by simp
  qed
  have none: "?out ! c = 0" if "\<forall>c<ncols x. \<not> 0 < ?r ! c" and "c < ncols x" for c
    using entry [of c] that by simp
  from wf_first_one [OF assms(1)] first unique none show ?thesis
    by (simp add: shape_first_one)
qed

theorem first_one_first_positive_witness:
  "wf_tensor payoff_example \<and> 0 < nrows payoff_example
   \<and> rows (first_one payoff_example) ! 0 ! 1 = 2
   \<and> rows (first_one payoff_example) ! 0 ! 3 = 0"
proof -
  have wf: "wf_tensor payoff_example" and i: "0 < nrows payoff_example"
    by (simp_all add: wf_tensor_def payoff_example_def)
  let ?r = "rows payoff_example ! 0" and ?out = "rows (first_one payoff_example) ! 0"
  from first_one_first_positive [OF wf i]
  have sel: "\<forall>c<ncols payoff_example. 0 < ?r ! c \<longrightarrow> (\<forall>j<c. \<not> 0 < ?r ! j) \<longrightarrow>
      ?out ! c = ?r ! c \<and> (\<forall>d<ncols payoff_example. d \<noteq> c \<longrightarrow> ?out ! d = 0)"
    by blast
  have c: "1 < ncols payoff_example" "0 < ?r ! 1" "\<forall>j<1. \<not> 0 < ?r ! j"
    and d: "3 < ncols payoff_example" "?r ! 1 = 2"
    by (simp_all add: payoff_example_def)
  from sel c have "?out ! 1 = ?r ! 1 \<and> (\<forall>d<ncols payoff_example. d \<noteq> 1 \<longrightarrow> ?out ! d = 0)"
    by blast
  with d have "?out ! 1 = 2" "?out ! 3 = 0"
    by simp_all
  with wf i show ?thesis by simp
qed

subsection \<open>Scaling\<close>

lemma scale_nonempty:
  "x \<noteq> [] \<Longrightarrow> scale x =
     Inr (map (\<lambda>v. tadd (tmul (fdiv 2 (Max (set x) - Min (set x))) (Fin v))
                        (tmul (tmul (Fin (- 0.5)) (fdiv 2 (Max (set x) - Min (set x))))
                              (Fin (Min (set x) + Max (set x))))) x)"
  by (simp add: scale_def torch_min_def torch_max_def ebind_def Let_def)

lemma affine_ends:
  fixes u w :: real
  assumes "u < w"
  shows "2 / (w - u) * u + - (u + w) / (w - u) = - 1"
    and "2 / (w - u) * w + - (u + w) / (w - u) = 1"
proof -
  define d where "d = w - u"
  then have d: "d \<noteq> 0" and w: "w = u + d" using assms by simp_all
  have "2 / d * u + - (u + (u + d)) / d = - 1"
    using d by (simp add: field_simps)
  then show "2 / (w - u) * u + - (u + w) / (w - u) = - 1"
    by (simp add: w)
  have "2 / d * (u + d) + - (u + (u + d)) / d = 1"
    using d by (simp add: field_simps)
  then show "2 / (w - u) * w + - (u + w) / (w - u) = 1"
    by (simp add: w)
qed

text \<open>
  The formula of \<open>scale\<close> in exact arithmetic: on a vector that is not constant it is the
  affine map \<open>v \<mapsto> a v + b\<close> that sends the smallest entry to \<open>-1\<close> and the largest to \<open>1\<close>.
\<close>

lemma scale_exact_arithmetic:
  assumes "x \<noteq> []" and "Min (set x) < Max (set x)"
  shows "let xmin = Min (set x); xmax = Max (set x);
             a = 2 / (xmax - xmin); b = - (xmin + xmax) / (xmax - xmin)
         in scale x = Inr (map (\<lambda>v. Fin (a * v + b)) x)
            \<and> a * xmin + b = - 1 \<and> a * xmax + b = 1
            \<and> Min (set (map (\<lambda>v. a * v + b) x)) = - 1
            \<and> Max (set (map (\<lambda>v. a * v + b) x)) = 1"
proof -
  define xmin xmax where "xmin = Min (set x)" and "xmax = Max (set x)"
  define a b where "a = 2 / (xmax - xmin)" and "b = - (xmin + xmax) / (xmax - xmin)"
  from assms have lt: "xmin < xmax" by (simp add: xmin_def xmax_def)
  then have a: "0 < a" by (simp add: a_def)
  have fa: "fdiv 2 (xmax - xmin) = Fin a"
    using lt by (simp add: fdiv_def a_def)
  have fb: "- 0.5 * a * (xmin + xmax) = b"
    using lt by (simp add: a_def b_def field_simps)
  have sc: "scale x = Inr (map (\<lambda>v. Fin (a * v + b)) x)"
    using fa fb unfolding scale_nonempty [OF assms(1)] xmin_def [symmetric] xmax_def [symmetric]
    by simp
  have lo: "a * xmin + b = - 1" and hi: "a * xmax + b = 1"
    using affine_ends [OF lt] by (simp_all add: a_def b_def)
  have mono: "mono (\<lambda>v. a * v + b)"
    using a by (simp add: mono_def)
  have fin: "finite (set x)" "set x \<noteq> {}" using assms(1) by simp_all
  have "Min (set (map (\<lambda>v. a * v + b) x)) = a * xmin + b"
    using mono_Min_commute [OF mono fin] by (simp add: xmin_def)
  moreover have "Max (set (map (\<lambda>v. a * v + b) x)) = a * xmax + b"
    using mono_Max_commute [OF mono fin] by (simp add: xmax_def)
  ultimately show ?thesis
    using sc lo hi by (simp add: Let_def a_def b_def xmin_def xmax_def)
qed

text \<open>Rounding to single precision: the binade of \<open>x\<close> fixes the grid.\<close>

lemma find_upto:
  assumes "i \<le> e" and "e \<le> j" and "P e" and "\<forall>k. i \<le> k \<and> k < e \<longrightarrow> \<not> P k"
  shows "find P [i..j] = Some e"
  using assms
proof (induction "nat (e - i)" arbitrary: i)
  case 0
  then have "i = e" by simp
  with 0 show ?case by (simp add: upto_rec1)
next
  case (Suc d)
  then have lt: "i < e" by linarith
  with Suc.prems have "\<not> P i" by simp
  moreover from Suc.hyps(2) have "d = nat (e - (i + 1))" by linarith
  from Suc.hyps(1) [OF this] Suc.prems lt have "find P [i + 1..j] = Some e" by simp
  ultimately show ?case using lt Suc.prems(2) by (simp add: upto_rec1)
qed

lemma float32_binade:
  assumes "- 126 \<le> e" and "e \<le> 127" and "\<bar>x\<bar> < 2 powi (e + 1)"
    and "2 powi e \<le> \<bar>x\<bar> \<or> e = - 126"
  shows "float32 x =
     (let ulp = 2 powi (e - 23); y = real_of_int (rint (x / ulp)) * ulp
      in if 2 powi 128 \<le> \<bar>y\<bar> then inf_of_sign x else Fin y)"
proof -
  have "\<not> \<bar>x\<bar> < 2 powi (k + 1)" if "- 126 \<le> k" "k < e" for k
  proof -
    from that assms(4) have "2 powi e \<le> \<bar>x\<bar>" by auto
    moreover from that have "(2::real) powi (k + 1) \<le> 2 powi e"
      by (intro power_int_increasing) simp_all
    ultimately show ?thesis by simp
  qed
  with assms(1-3) have "find (\<lambda>e. \<bar>x\<bar> < 2 powi (e + 1)) [- 126..127] = Some e"
    by (intro find_upto) simp_all
  then show ?thesis by (simp add: float32_def)
qed

lemma float32_values:
  "float32 0 = Fin 0"
  "float32 2 = Fin 2"
  "float32 (1 / 2 ^ 23) = Fin (1 / 2 ^ 23)"
  "float32 (2 ^ 24) = Fin (2 ^ 24)"
  "float32 (- (2 ^ 23)) = Fin (- (2 ^ 23))"
  "float32 (- (2 ^ 24)) = Fin (- (2 ^ 24))"
  "float32 (2 ^ 24 + 2) = Fin (2 ^ 24 + 2)"
  "float32 (2 + 1 / 2 ^ 23) = Fin 2"
  using float32_binade [of "- 126" 0] float32_binade [of 1 2]
    float32_binade [of "- 23" "1 / 2 ^ 23"] float32_binade [of 24 "2 ^ 24"]
    float32_binade [of 23 "- (2 ^ 23)"] float32_binade [of 24 "- (2 ^ 24)"]
    float32_binade [of 24 "2 ^ 24 + 2"] float32_binade [of 1 "2 + 1 / 2 ^ 23"]
  by (simp_all add: power_int_minus rint_def Let_def)

lemma find_upto_None: "(\<forall>k. i \<le> k \<and> k \<le> j \<longrightarrow> \<not> P k) \<Longrightarrow> find P [i..j] = None"
  by (simp add: find_None_iff)

lemma float32_overflow:
  assumes "2 powi 128 \<le> \<bar>x\<bar>"
  shows "float32 x = inf_of_sign x"
proof -
  have "\<not> \<bar>x\<bar> < 2 powi (e + 1)" if "e \<le> 127" for e
  proof -
    from that have "(2::real) powi (e + 1) \<le> 2 powi 128"
      by (intro power_int_increasing) simp_all
    with assms show ?thesis by simp
  qed
  then have "find (\<lambda>e. \<bar>x\<bar> < 2 powi (e + 1)) [- 126..127] = None"
    by (intro find_upto_None) blast
  then show ?thesis by (simp add: float32_def)
qed

text \<open>
  C7 on two vectors that are not constant. The entries of \<open>[1, 1 + 2\<^sup>-\<^sup>2\<^sup>3]\<close> are neighbouring
  single-precision numbers. In single precision \<open>xmax - xmin = 2\<^sup>-\<^sup>2\<^sup>3\<close> and \<open>a = 2\<^sup>2\<^sup>4\<close> are
  exact, but \<open>xmin + xmax = 2 + 2\<^sup>-\<^sup>2\<^sup>3\<close> lies half-way between \<open>2\<close> and \<open>2 + 2\<^sup>-\<^sup>2\<^sup>2\<close> and is
  rounded to \<open>2\<close>, so \<open>b = - 2\<^sup>2\<^sup>4\<close> and the result is \<open>[0, 2]\<close>: its smallest entry is \<open>0\<close>, not
  \<open>-1\<close>, and its largest is \<open>2\<close>, not \<open>1\<close>. The same formula in exact arithmetic gives \<open>[-1, 1]\<close>.
  On \<open>[- 2\<^sup>1\<^sup>2\<^sup>7, 2\<^sup>1\<^sup>2\<^sup>7]\<close> the difference \<open>xmax - xmin\<close> overflows to \<open>inf\<close>, \<open>a = 2 / inf\<close> is
  zero, and the result is \<open>[0, 0]\<close>.
\<close>

theorem scale_float32_example:
  "scale_float32 [1, 1 + 1 / 2 ^ 23] = Inr [Fin 0, Fin 2]
   \<and> scale [1, 1 + 1 / 2 ^ 23] = Inr [Fin (- 1), Fin 1]
   \<and> scale_float32 [- (2 ^ 127), 2 ^ 127] = Inr [Fin 0, Fin 0]"
proof -
  have "scale_float32 [1, 1 + 1 / 2 ^ 23] = Inr [Fin 0, Fin 2]"
    using float32_values
    by (simp add: scale_float32_def torch_min_def torch_max_def ebind_def fdiv_def Let_def)
  moreover have "scale [1, 1 + 1 / 2 ^ 23] = Inr [Fin (- 1), Fin 1]"
    by (simp add: scale_def torch_min_def torch_max_def ebind_def fdiv_def Let_def)
  moreover have "scale_float32 [- (2 ^ 127), 2 ^ 127] = Inr [Fin 0, Fin 0]"
    using float32_values(1) float32_overflow [of "2 ^ 127 - - (2 ^ 127)"]
    by (simp add: scale_float32_def torch_min_def torch_max_def ebind_def inf_of_sign_def Let_def)
  ultimately show ?thesis by simp
qed

text \<open>
  A vector of two equal prices: \<open>scale\<close> reports nothing and returns NaN twice.
\<close>

theorem scale_example_constant: "scale [3, 3] = Inr [NaN, NaN]"
  by (simp add: scale_def torch_min_def torch_max_def ebind_def fdiv_def inf_of_sign_def)

text \<open>
  C5, as the code has it. \<open>scale\<close> has no check of the range: on a non-empty vector whose
  entries are all equal it raises nothing and returns a vector of the same length whose entries
  are all NaN (\<open>2 / 0\<close> is \<open>inf\<close>, and \<open>inf * x - inf\<close> or \<open>inf * 0\<close> is NaN).
\<close>

theorem scale_constant:
  assumes "x \<noteq> []" and "\<forall>v\<in>set x. v = hd x"
  shows "scale x = Inr (replicate (length x) NaN)"
proof -
  from assms have "set x = {hd x}" by (cases x) auto
  then have mm: "Min (set x) = hd x" "Max (set x) = hd x" by simp_all
  have nan: "tadd (tmul (fdiv 2 0) (Fin c)) (tmul (tmul (Fin (- 0.5)) (fdiv 2 0)) (Fin (c + c))) = NaN"
    for c :: real
    by (cases "c = 0"; cases "0 < c") (simp_all add: fdiv_def inf_of_sign_def sgn_real_def)
  have "map (\<lambda>v. tadd (tmul (fdiv 2 0) (Fin v))
                    (tmul (tmul (Fin (- 0.5)) (fdiv 2 0)) (Fin (hd x + hd x)))) x
      = map (\<lambda>v. NaN) x"
    using assms(2) nan by (intro map_cong) auto
  then show ?thesis
    using assms(1) by (simp add: scale_nonempty mm map_replicate_const)
qed

theorem scale_constant_witness:
  "[0, 0, 0] \<noteq> ([] :: real list) \<and> list_all (\<lambda>v. v = hd [0, 0, 0]) [0, 0, 0 :: real]
   \<and> scale [0, 0, 0] = Inr [NaN, NaN, NaN]"
proof -
  have ne: "[0, 0, 0] \<noteq> ([] :: real list)"
    and eq: "\<forall>v\<in>set [0, 0, 0 :: real]. v = hd [0, 0, 0]"
    by simp_all
  from scale_constant [OF ne eq] have "scale [0, 0, 0] = Inr [NaN, NaN, NaN]"
    by (simp add: numeral_eq_Suc)
  with ne eq show ?thesis by (simp add: list_all_iff)
qed

subsection \<open>The Chebyshev basis\<close>

lemma cheb_fold:
  assumes "length B = a" and "2 \<le> a"
  shows "length (fold (\<lambda>n B. cheb_next x B n) [a..<b] B) = max a b
    \<and> (\<forall>j<a. fold (\<lambda>n B. cheb_next x B n) [a..<b] B ! j = B ! j)
    \<and> (\<forall>j. a \<le> j \<and> j < b \<longrightarrow>
          fold (\<lambda>n B. cheb_next x B n) [a..<b] B ! j =
            cheb_rec x (fold (\<lambda>n B. cheb_next x B n) [a..<b] B ! (j - 1))
                       (fold (\<lambda>n B. cheb_next x B n) [a..<b] B ! (j - 2)))"
proof (induction b)
  case 0
  with assms show ?case by simp
next
  case (Suc b)
  let ?F = "\<lambda>b. fold (\<lambda>n B. cheb_next x B n) [a..<b] B"
  show ?case
  proof (cases "a \<le> b")
    case False
    then have "[a..<Suc b] = []" by simp
    with False assms show ?thesis by auto
  next
    case True
    then have step: "?F (Suc b) = ?F b @ [cheb_rec x (?F b ! (b - 1)) (?F b ! (b - 2))]"
      by (simp add: cheb_next_def cheb_rec_def)
    from Suc True have len: "length (?F b) = b" by (simp add: max_def)
    have old: "?F (Suc b) ! j = ?F b ! j" if "j < b" for j
      using that len True by (simp add: cheb_next_def nth_append)
    have new: "?F (Suc b) ! b = cheb_rec x (?F b ! (b - 1)) (?F b ! (b - 2))"
      using len True by (simp add: cheb_next_def cheb_rec_def nth_append)
    from assms True have b2: "2 \<le> b" by simp
    have "length (?F (Suc b)) = max a (Suc b)"
      using len True by (simp add: cheb_next_def)
    moreover have "\<forall>j<a. ?F (Suc b) ! j = B ! j"
      using Suc True old by auto
    moreover have "?F (Suc b) ! j = cheb_rec x (?F (Suc b) ! (j - 1)) (?F (Suc b) ! (j - 2))"
      if "a \<le> j \<and> j < Suc b" for j
    proof (cases "j = b")
      case True
      with new old [of "b - 1"] old [of "b - 2"] b2 show ?thesis by simp
    next
      case False
      with that have j: "j < b" "a \<le> j" by simp_all
      with assms have "j - 1 < b" "j - 2 < b" by simp_all
      with Suc j old show ?thesis by simp
    qed
    ultimately show ?thesis by blast
  qed
qed

lemma cheb_columns_props:
  "length (cheb_columns x k) = max 2 (nat k)"
  "cheb_columns x k ! 0 = ones_like x"
  "cheb_columns x k ! Suc 0 = x"
  "2 \<le> j \<Longrightarrow> j < nat k \<Longrightarrow>
     cheb_columns x k ! j = cheb_rec x (cheb_columns x k ! (j - 1)) (cheb_columns x k ! (j - 2))"
  using cheb_fold [of "[ones_like x, x]" 2 x "nat k"]
  by (simp_all add: cheb_columns_def)

lemma cheb_columns_length:
  "j < length (cheb_columns x k) \<Longrightarrow> length (cheb_columns x k ! j) = length x"
proof (induction j rule: less_induct)
  case (less j)
  consider "j = 0" | "j = 1" | "2 \<le> j" by linarith
  then show ?case
  proof cases
    case 1
    then show ?thesis by (simp add: cheb_columns_props ones_like_def)
  next
    case 2
    then show ?thesis by (simp add: cheb_columns_props)
  next
    case 3
    with less.prems have jk: "j < nat k" by (simp add: cheb_columns_props(1))
    from 3 less.prems have "length (cheb_columns x k ! (j - 1)) = length x"
      "length (cheb_columns x k ! (j - 2)) = length x"
      by (auto intro!: less.IH)
    with 3 jk show ?thesis
      by (simp add: cheb_columns_props(4) cheb_rec_def)
  qed
qed

lemma stack_dim1_cols:
  assumes "cols \<noteq> []" and "\<forall>c\<in>set cols. length c = n"
  shows "stack_dim1 cols = Inr (Tensor2 n (length cols) (map (\<lambda>i. map (\<lambda>v. v ! i) cols) [0..<n]))"
  using assms by (cases cols) auto

lemma chebyshev_basis_eq:
  "chebyshev_basis x k =
     Inr (Tensor2 (length x) (max 2 (nat k))
            (map (\<lambda>i. map (\<lambda>v. v ! i) (cheb_columns x k)) [0..<length x]))"
proof -
  have ne: "cheb_columns x k \<noteq> []"
    using cheb_columns_props(1) [of x k] by auto
  have "\<forall>c\<in>set (cheb_columns x k). length c = length x"
    using cheb_columns_length by (auto simp: in_set_conv_nth)
  from stack_dim1_cols [OF ne this] show ?thesis
    by (simp add: chebyshev_basis_def cheb_columns_props(1))
qed

lemma column_stack:
  assumes "j < length cols" and "length (cols ! j) = n"
  shows "column j (Tensor2 n (length cols) (map (\<lambda>i. map (\<lambda>v. v ! i) cols) [0..<n])) = cols ! j"
  using assms by (auto simp: column_def intro!: nth_equalityI)

lemma chebyshev_basis_general:
  assumes "2 \<le> k"
  shows "\<exists>B. chebyshev_basis x k = Inr B \<and> wf_tensor B \<and> nrows B = length x \<and> ncols B = nat k
    \<and> column 0 B = ones_like x \<and> column 1 B = x
    \<and> (\<forall>j. 2 \<le> j \<and> j < nat k \<longrightarrow>
          column j B = map2 tsub (map2 tmul (map (tmul (Fin 2)) x) (column (j - 1) B)) (column (j - 2) B))"
proof -
  let ?cols = "cheb_columns x k"
  let ?B = "Tensor2 (length x) (max 2 (nat k)) (map (\<lambda>i. map (\<lambda>v. v ! i) ?cols) [0..<length x])"
  have len: "length ?cols = nat k" using assms by (simp add: cheb_columns_props(1))
  have col: "column j ?B = ?cols ! j" if "j < nat k" for j
    using column_stack [of j ?cols "length x"] that len cheb_columns_length [of j x k]
    by (simp add: cheb_columns_props(1))
  have "wf_tensor ?B"
    by (simp add: wf_tensor_def list_all_iff cheb_columns_props(1))
  moreover have "column 0 ?B = ones_like x" "column 1 ?B = x"
    using col [of 0] col [of 1] assms by (simp_all add: cheb_columns_props)
  moreover have "column j ?B = map2 tsub (map2 tmul (map (tmul (Fin 2)) x) (column (j - 1) ?B)) (column (j - 2) ?B)"
    if "2 \<le> j \<and> j < nat k" for j
  proof -
    from that have "j - 1 < nat k" "j - 2 < nat k" by linarith+
    with col [of j] col [of "j - 1"] col [of "j - 2"] that cheb_columns_props(4) [of j k x]
    show ?thesis by (simp add: cheb_rec_def)
  qed
  ultimately show ?thesis
    using assms by (simp add: chebyshev_basis_eq)
qed

text \<open>
  C6 at polynomial order 1, on the spec's sample vector: the claim asks for one column, the code
  returns two, since it stores \<open>B[0]\<close> and \<open>B[1]\<close> before looking at \<open>k\<close>.
\<close>

theorem chebyshev_basis_order_one:
  "chebyshev_basis [Fin (- 1), Fin 0, Fin 1] 1 =
     Inr (Tensor2 3 2 [[Fin 1, Fin (- 1)], [Fin 1, Fin 0], [Fin 1, Fin 1]])"
  by (simp add: chebyshev_basis_def cheb_columns_def ones_like_def upt_rec)

subsection \<open>The candidate payoffs\<close>

lemma where_fn_nth:
  assumes "j < length cond" and "j < length x_1" and "j < length x_2"
  shows "where_fn cond x_1 x_2 ! j = (if cond ! j then x_1 ! j else x_2 ! j)"
  using assms by (simp add: where_fn_def Let_def)

lemma length_where_fn:
  "length (where_fn cond x_1 x_2) = min (length cond) (min (length x_1) (length x_2))"
  by (simp add: where_fn_def Let_def)

text \<open>
  One path whose cashflow 5 equals its continuation value: the candidate payoff is the
  cashflow 5, not 0.
\<close>

theorem payoff_at_tie_example: "payoff_at 1 [Fin 5] [5] = [5]"
  by (simp add: payoff_at_def where_fn_def)

text \<open>
  C2, as the code has it. For every date and every path the candidate payoff is \<open>0\<close> when the
  continuation value is strictly greater than the cashflow, and the cashflow otherwise; in
  particular, when both are equal the candidate payoff is the cashflow.
\<close>

theorem payoff_at_entry:
  assumes "length continuation_value_t = n" and "length cashflow_t = n" and "j < n"
  shows "length (payoff_at n continuation_value_t cashflow_t) = n
    \<and> payoff_at n continuation_value_t cashflow_t ! j =
        (if tgt (continuation_value_t ! j) (Fin (cashflow_t ! j)) then 0 else cashflow_t ! j)
    \<and> (continuation_value_t ! j = Fin (cashflow_t ! j) \<longrightarrow>
          payoff_at n continuation_value_t cashflow_t ! j = cashflow_t ! j)"
  using assms by (auto simp: payoff_at_def where_fn_nth length_where_fn)

theorem payoff_at_entry_witness:
  "length [Fin 3, Fin 1, NaN] = 3 \<and> length [2, 1, 4 :: real] = 3 \<and> (1::nat) < 3
   \<and> payoff_at 3 [Fin 3, Fin 1, NaN] [2, 1, 4] ! 1 = 1"
  using payoff_at_entry [of "[Fin 3, Fin 1, NaN]" 3 "[2, 1, 4]" 1] by simp

subsection \<open>The price\<close>

lemma sum_list_column:
  "sum_list (map (\<lambda>v. v * e) (column j X)) = (\<Sum>i<length (rows X). rows X ! i ! j * (e::real))"
proof -
  have "map (\<lambda>v. v * e) (column j X) = map (\<lambda>i. rows X ! i ! j * e) [0..<length (rows X)]"
    by (rule nth_equalityI) (simp_all add: column_def)
  then show ?thesis
    by (simp add: interv_sum_list_conv_sum_set_nat atLeast0LessThan)
qed

lemma price_of_sum:
  assumes "wf_tensor payoff"
    and "m_steps p = int (ncols payoff)" and "0 < ncols payoff"
    and "n_paths p = int (nrows payoff)" and "0 < nrows payoff"
  shows "price_of p dt payoff =
     Inr (Fin (1 / real (nrows payoff) *
        (\<Sum>i<nrows payoff. \<Sum>j<ncols payoff.
            rows payoff ! i ! j * exp (- rate_r p * real j * dt))))"
proof -
  let ?e = "\<lambda>j. exp (- rate_r p * real j * dt)"
  let ?d = "map (\<lambda>j. map (\<lambda>v. v * ?e j) (column j payoff)) [0..<ncols payoff]"
  from assms(1) have len: "length (rows payoff) = nrows payoff"
    by (simp add: wf_tensor_def)
  have ne: "?d \<noteq> []" using assms(3) by simp
  have "sum_list (map sum_list ?d) = (\<Sum>j<ncols payoff. \<Sum>i<nrows payoff. rows payoff ! i ! j * ?e j)"
    by (simp add: comp_def sum_list_column len interv_sum_list_conv_sum_set_nat atLeast0LessThan)
  also have "\<dots> = (\<Sum>i<nrows payoff. \<Sum>j<ncols payoff. rows payoff ! i ! j * ?e j)"
    by (rule sum.swap)
  finally have total: "sum_list (map sum_list ?d) =
      (\<Sum>i<nrows payoff. \<Sum>j<ncols payoff. rows payoff ! i ! j * ?e j)" .
  have "price_of p dt payoff = Inr (fdiv (sum_list (map sum_list ?d)) (real (nrows payoff)))"
    using ne assms(2,4) by (simp add: price_of_def Let_def)
  with total assms(5) show ?thesis
    by (simp add: fdiv_def)
qed

text \<open>
  C8. The price is \<open>1 / n\<close> times the sum, over the \<open>n\<close> paths and the columns of the selected
  payoff matrix, of the payoff in column \<open>j\<close> times \<open>exp (- r j \<Delta>t)\<close>, \<open>j\<close> counted from 0.
\<close>

theorem price_of_mean:
  assumes "wf_tensor payoff"
    and "m_steps p = int (ncols payoff)" and "0 < ncols payoff"
    and "n_paths p = int (nrows payoff)" and "0 < nrows payoff"
  shows "price_of p dt payoff =
     Inr (Fin (1 / real (nrows payoff) *
        (\<Sum>i<nrows payoff. \<Sum>j<ncols payoff.
            rows payoff ! i ! j * exp (- rate_r p * real j * dt))))"
  using assms by (rule price_of_sum)

theorem price_of_mean_witness:
  "wf_tensor (Tensor2 2 2 [[0, 4], [2, 0 :: real]])
   \<and> m_steps (small_params 40\<lparr>rate_r := 3 / 50\<rparr>) = int (ncols (Tensor2 2 2 [[0, 4], [2, 0 :: real]]))
   \<and> 0 < ncols (Tensor2 2 2 [[0, 4], [2, 0 :: real]])
   \<and> n_paths (small_params 40\<lparr>rate_r := 3 / 50\<rparr>) = int (nrows (Tensor2 2 2 [[0, 4], [2, 0 :: real]]))
   \<and> 0 < nrows (Tensor2 2 2 [[0, 4], [2, 0 :: real]])
   \<and> price_of (small_params 40\<lparr>rate_r := 3 / 50\<rparr>) 1 (Tensor2 2 2 [[0, 4], [2, 0]])
        = Inr (Fin (1 / 2 * (4 * exp (- (3 / 50)) + 2)))"
proof -
  let ?X = "Tensor2 2 2 [[0, 4], [2, 0 :: real]]" and ?p = "small_params 40\<lparr>rate_r := 3 / 50\<rparr>"
  have h: "wf_tensor ?X" "m_steps ?p = int (ncols ?X)" "0 < ncols ?X"
    "n_paths ?p = int (nrows ?X)" "0 < nrows ?X"
    by (simp_all add: wf_tensor_def small_params_def)
  from price_of_mean [OF h, of 1]
  have "price_of ?p 1 ?X = Inr (Fin (1 / 2 * (4 * exp (- (3 / 50)) + 2)))"
    by (simp add: small_params_def lessThan_Suc numeral_2_eq_2)
  with h show ?thesis by blast
qed

subsection \<open>The backward recursion\<close>







lemma small_scale: "scale [38, 60] = Inr [Fin (- 1), Fin 1]"
  by (simp add: scale_def torch_min_def torch_max_def ebind_def fdiv_def)

lemma small_basis:
  "chebyshev_basis [Fin (- 1), Fin 1] 2 = Inr (Tensor2 2 2 [[Fin 1, Fin (- 1)], [Fin 1, Fin 1]])"
  by (simp add: chebyshev_basis_def cheb_columns_def ones_like_def upt_rec)

lemma small_ridge:
  "ridge_regression 2 (Tensor2 2 2 [[Fin 1, Fin (- 1)], [Fin 1, Fin 1]]) [Fin y, Fin 0] 100
     = Inr [Fin (y / 51), Fin 0]"
  by (simp add: ridge_regression_def eye_def reshape_col_def transpose_t_def matmul_def badd_def
      bdim_def tmap_def torch_solve_def all_finite_def squeeze_def column_def tsum_def ebind_def
      upt_rec numeral_eq_Suc Let_def)

subsection \<open>The run\<close>

lemma length_advance: "length Z = length S \<Longrightarrow> length (advance p dt Z S) = length S"
  by (simp add: advance_def Let_def)

lemma payoff_at_nth:
  assumes "length cv = n" and "length c = n" and "j < n"
  shows "payoff_at n cv c ! j = (if tgt (cv ! j) (Fin (c ! j)) then 0 else c ! j)"
    and "length (payoff_at n cv c) = n"
  using assms by (simp_all add: payoff_at_def where_fn_nth length_where_fn)



lemma payoff_at_terminal:
  assumes "length c = n" and "\<forall>v\<in>set c. 0 \<le> v"
  shows "payoff_at n (replicate n (Fin 0)) c = c"
proof (rule nth_equalityI)
  show "length (payoff_at n (replicate n (Fin 0)) c) = length c"
    using assms(1) by (simp add: payoff_at_def length_where_fn)
next
  fix i assume "i < length (payoff_at n (replicate n (Fin 0)) c)"
  then have i: "i < n" using assms(1) by (simp add: payoff_at_def length_where_fn)
  with assms have "0 \<le> c ! i" by simp
  with payoff_at_nth(1) [of "replicate n (Fin 0)" n c i] assms(1) i
  show "payoff_at n (replicate n (Fin 0)) c ! i = c ! i" by simp
qed

subsection \<open>Time labels and dictionaries\<close>

lemma rint_of_int [simp]: "rint (of_int k) = k"
  by (simp add: rint_def)

lemma round6_int: "round6 (of_int k) = of_int k"
proof -
  have "of_int k * (1000000::real) = of_int (k * 1000000)" by simp
  then have "rint (of_int k * 1000000) = k * 1000000" by (simp only: rint_of_int)
  then show ?thesis by (simp add: round6_def)
qed

lemma round6_numeral [simp]: "round6 (numeral w) = numeral w" "round6 0 = 0" "round6 1 = 1"
  using round6_int [of "numeral w"] round6_int [of 0] round6_int [of 1] by simp_all









lemma getitem_KeyError: "getitem d k = Inl e \<Longrightarrow> e = KeyError"
  by (auto simp: getitem_def split: option.splits)

subsection \<open>The small run\<close>

lemma small_t_span: "t_span (small_params K) = [1, 2]"
  by (simp add: t_span_def small_params_def arange_def upt_conv_Cons)

lemma small_simulation:
  "simulation (small_params K) small_draws = Inr [(0, [40, 40]), (1, [38, 60]), (2, [19, 60])]"
  unfolding simulation_def small_t_span
  by (simp add: simulate_step_def getitem_def ebind_def advance_def
      small_params_def small_draws_def upt_conv_Cons numeral_2_eq_2)

lemma small_cashflow:
  "cashflow_table (small_params K) [(0, [40, 40]), (1, [38, 60]), (2, [19, 60])] =
     Inr [(1, [max (K - 38) 0, max (K - 60) 0]), (2, [max (K - 19) 0, max (K - 60) 0])]"
  unfolding cashflow_table_def small_t_span
  by (simp add: dict_comp_def getitem_def ebind_def small_params_def)

lemma small_backward_step:
  "backward_step (small_params K) 1 1 [(0, [40, 40]), (1, [38, 60]), (2, [19, 60])]
       [(1, [c, 0]), (2, [y, 0])] 1 ([(2, [y, 0])], [(2, [Fin 0, Fin 0])]) =
     Inr ([(2, [y, 0]), (1, [if y / 51 < c then c else y, 0])],
          [(2, [Fin 0, Fin 0]), (1, [Fin (y / 51), Fin 0])])"
proof -
  have o: "order (small_params K) = 2" by (simp add: small_params_def)
  show ?thesis
    unfolding backward_step_def o
    by (simp add: getitem_def ebind_def small_scale small_basis small_ridge where_fn_def)
qed

lemma small_backward_pass:
  "backward_pass (small_params K) [(0, [40, 40]), (1, [38, 60]), (2, [19, 60])]
       [(1, [c, 0]), (2, [y, 0])] =
     Inr ([(2, [y, 0]), (1, [if y / 51 < c then c else y, 0])],
          [(2, [Fin 0, Fin 0]), (1, [Fin (y / 51), Fin 0])])"
proof -
  have p: "maturity_T (small_params K) = 2" "m_steps (small_params K) = 2"
    "rate_r (small_params K) = 0" "n_paths (small_params K) = 2"
    by (simp_all add: small_params_def)
  show ?thesis
    unfolding backward_pass_def small_t_span p Let_def
    by (simp add: getitem_def ebind_def small_backward_step numeral_2_eq_2)
qed







subsection \<open>What every run that returns satisfies\<close>












subsection \<open>Runs with one time step, and runs that stop\<close>

lemma t_span_one_step:
  assumes "m_steps p = 1" and "maturity_T p \<noteq> 0"
  shows "t_span p = [round6 (maturity_T p)]"
  using assms by (simp add: t_span_def arange_def)

lemma simulation_one_step:
  assumes "m_steps p = 1" and "0 < maturity_T p" and "0 \<le> n_paths p"
    and "round6 (maturity_T p) = maturity_T p"
  shows "simulation p rnd =
     Inr [(0, replicate (nat (n_paths p)) (Spot p)),
          (maturity_T p,
           advance p (maturity_T p) (map (rnd 1) [0..<nat (n_paths p)])
             (replicate (nat (n_paths p)) (Spot p)))]"
proof -
  from assms have ts: "t_span p = [maturity_T p]" by (simp add: t_span_one_step)
  show ?thesis
    unfolding simulation_def ts using assms
    by (simp add: simulate_step_def getitem_def ebind_def Let_def)
qed

lemma selected_one_step:
  assumes "m_steps p = 1" and "0 < maturity_T p" and "0 \<le> n_paths p"
    and "round6 (maturity_T p) = maturity_T p"
  shows "selected_payoff p rnd =
     Inr (Tensor2 (nat (n_paths p)) 1
       (map (\<lambda>s. [max (strike_K p - s) 0])
          (advance p (maturity_T p) (map (rnd 1) [0..<nat (n_paths p)])
             (replicate (nat (n_paths p)) (Spot p)))))"
proof -
  define n S_T c where "n = nat (n_paths p)"
    and "S_T = advance p (maturity_T p) (map (rnd 1) [0..<nat (n_paths p)])
             (replicate (nat (n_paths p)) (Spot p))"
    and "c = map (\<lambda>s. max (strike_K p - s) 0) S_T"
  from assms have ts: "t_span p = [maturity_T p]" by (simp add: t_span_one_step)
  have lS: "length S_T = n" by (simp add: S_T_def n_def length_advance)
  then have lc: "length c = n" and pos: "\<forall>v\<in>set c. 0 \<le> v" by (auto simp: c_def)
  let ?P = "Tensor2 n 1 (map (\<lambda>i. [c ! i]) [0..<n])"
  have cf: "cashflow_table p [(0, replicate n (Spot p)), (maturity_T p, S_T)] = Inr [(maturity_T p, c)]"
    unfolding cashflow_table_def ts using assms(2)
    by (simp add: dict_comp_def getitem_def ebind_def c_def)
  have bp: "backward_pass p [(0, replicate n (Spot p)), (maturity_T p, S_T)] [(maturity_T p, c)] =
      Inr ([(maturity_T p, map (\<lambda>v. v * exp (- rate_r p * (maturity_T p / real_of_int (m_steps p)))) c)],
           [(maturity_T p, replicate n (Fin 0))])"
    unfolding backward_pass_def ts
    by (simp add: getitem_def ebind_def n_def)
  have pt: "payoff_table p [(maturity_T p, c)] [(maturity_T p, replicate n (Fin 0))]
      = Inr [(maturity_T p, c)]"
    unfolding payoff_table_def ts
    by (simp add: dict_comp_def getitem_def ebind_def n_def [symmetric] payoff_at_terminal [OF lc pos])
  have sim: "simulation p rnd = Inr [(0, replicate n (Spot p)), (maturity_T p, S_T)]"
    using simulation_one_step [OF assms] by (simp add: n_def S_T_def)
  have st: "stack_dim1 [c] = Inr ?P"
    by (simp add: lc)
  have sel: "selected_payoff p rnd = Inr (first_one ?P)"
    unfolding selected_payoff_def sim
    by (simp add: ebind_def cf bp pt st del: stack_dim1.simps)
  have wf: "wf_tensor ?P" by (simp add: wf_tensor_def list_all_iff)
  have "rows (first_one ?P) = map (\<lambda>v. [v]) c"
  proof (rule nth_equalityI)
    show "length (rows (first_one ?P)) = length (map (\<lambda>v. [v]) c)"
      using wf_first_one [OF wf] by (simp add: wf_tensor_def shape_first_one lc)
  next
    fix i assume "i < length (rows (first_one ?P))"
    then have i: "i < n" using wf_first_one [OF wf] by (simp add: wf_tensor_def shape_first_one)
    from wf_first_one [OF wf] i have "length (rows (first_one ?P) ! i) = 1"
      by (simp add: wf_tensor_def shape_first_one list_all_length)
    moreover have "0 \<le> c ! i" using pos i lc by simp
    then have "rows (first_one ?P) ! i ! 0 = c ! i"
      using first_one_entry [OF wf, of i 0] i by auto
    ultimately have "rows (first_one ?P) ! i = [c ! i]"
      by (cases "rows (first_one ?P) ! i") auto
    with i lc show "rows (first_one ?P) ! i = map (\<lambda>v. [v]) c ! i" by simp
  qed
  then have "first_one ?P = Tensor2 n 1 (map (\<lambda>v. [v]) c)"
    by (intro tensor2.expand) (simp add: shape_first_one)
  with sel show ?thesis by (simp add: n_def c_def S_T_def comp_def)
qed

lemma lsmc_zero_steps: "m_steps p = 0 \<Longrightarrow> lsmc p rnd = Inl ZeroDivisionError"
  by (simp add: lsmc_def selected_payoff_def simulation_def ebind_def)

lemma lsmc_negative_paths:
  "m_steps p \<noteq> 0 \<Longrightarrow> n_paths p < 0 \<Longrightarrow> lsmc p rnd = Inl RuntimeError"
  by (simp add: lsmc_def selected_payoff_def simulation_def ebind_def)

lemma t_span_negative_steps:
  assumes "m_steps p < 0" and "0 < maturity_T p"
  shows "t_span p = []"
proof -
  from assms have "maturity_T p / real_of_int (m_steps p) < 0"
    by (simp add: divide_pos_neg)
  moreover from this assms have "(maturity_T p + maturity_T p / real_of_int (m_steps p)
      - maturity_T p / real_of_int (m_steps p)) / (maturity_T p / real_of_int (m_steps p))
      = real_of_int (m_steps p)"
    by simp
  ultimately show ?thesis
    using assms(1) by (simp add: t_span_def arange_def Let_def)
qed

lemma lsmc_negative_steps:
  assumes "m_steps p < 0" and "0 \<le> n_paths p" and "0 < maturity_T p"
  shows "lsmc p rnd = Inl KeyError"
  using assms
  by (simp add: lsmc_def selected_payoff_def simulation_def ebind_def t_span_negative_steps
      cashflow_table_def dict_comp_def backward_pass_def getitem_def Let_def)

lemma lsmc_one_step_key:
  assumes "m_steps p = 1" and "0 < maturity_T p" and "0 \<le> n_paths p"
    and "round6 (maturity_T p) \<noteq> maturity_T p"
  shows "lsmc p rnd = Inl KeyError"
proof -
  define n t where "n = nat (n_paths p)" and "t = round6 (maturity_T p)"
  from assms have ts: "t_span p = [t]" by (simp add: t_span_one_step t_def)
  show ?thesis
  proof (cases "round6 (t - maturity_T p) = 0")
    case False
    then have "simulation p rnd = Inl KeyError"
      unfolding simulation_def ts using assms(1,3)
      by (simp add: simulate_step_def getitem_def ebind_def)
    then show ?thesis by (simp add: lsmc_def selected_payoff_def ebind_def)
  next
    case True
    define S where "S = AList.update t (advance p (maturity_T p) (map (rnd 1) [0..<n])
        (replicate n (Spot p))) [(0, replicate n (Spot p))]"
    have sim: "simulation p rnd = Inr S"
      unfolding simulation_def ts using assms(1,3) True
      by (simp add: simulate_step_def getitem_def ebind_def S_def n_def del: AList.update.simps)
    have "\<exists>c. cashflow_table p S = Inr [(t, c)]"
      unfolding cashflow_table_def ts
      by (simp add: dict_comp_def getitem_def ebind_def S_def)
    then obtain c where cf: "cashflow_table p S = Inr [(t, c)]" ..
    have "backward_pass p S [(t, c)] = Inl KeyError"
      using assms(4) by (simp add: backward_pass_def getitem_def ebind_def t_def Let_def)
    with sim cf show ?thesis by (simp add: lsmc_def selected_payoff_def ebind_def)
  qed
qed



subsection \<open>The continuation value at order 1\<close>

lemma order_one_basis:
  "chebyshev_basis [Fin (- 1), Fin 1] 1 = Inr (Tensor2 2 2 [[Fin 1, Fin (- 1)], [Fin 1, Fin 1]])"
  by (simp add: chebyshev_basis_def cheb_columns_def ones_like_def upt_rec)

lemma order_one_ridge:
  "ridge_regression 1 (Tensor2 2 2 [[Fin 1, Fin (- 1)], [Fin 1, Fin 1]]) [Fin 21, Fin 0] 100
     = Inr [Fin 21, Fin 0]"
  by (simp add: ridge_regression_def eye_def reshape_col_def transpose_t_def matmul_def badd_def
      bdim_def tmap_def torch_solve_def all_finite_def squeeze_def column_def tsum_def ebind_def
      upt_rec numeral_eq_Suc Let_def)

lemma order_one_t_span: "t_span ((small_params K)\<lparr>order := 1\<rparr>) = [1, 2]"
  by (simp add: t_span_def small_params_def arange_def upt_conv_Cons)

lemma order_one_simulation:
  "simulation ((small_params K)\<lparr>order := 1\<rparr>) small_draws
     = Inr [(0, [40, 40]), (1, [38, 60]), (2, [19, 60])]"
  unfolding simulation_def order_one_t_span
  by (simp add: simulate_step_def getitem_def ebind_def advance_def
      small_params_def small_draws_def upt_conv_Cons numeral_2_eq_2)

lemma order_one_cashflow:
  "cashflow_table ((small_params 40)\<lparr>order := 1\<rparr>) [(0, [40, 40]), (1, [38, 60]), (2, [19, 60])] =
     Inr [(1, [2, 0]), (2, [21, 0])]"
  unfolding cashflow_table_def order_one_t_span
  by (simp add: dict_comp_def getitem_def ebind_def small_params_def)

lemma order_one_backward_step:
  "backward_step ((small_params 40)\<lparr>order := 1\<rparr>) 1 1 [(0, [40, 40]), (1, [38, 60]), (2, [19, 60])]
       [(1, [2, 0]), (2, [21, 0])] 1 ([(2, [21, 0])], [(2, [Fin 0, Fin 0])]) =
     Inr ([(2, [21, 0]), (1, [21, 0])],
          [(2, [Fin 0, Fin 0]), (1, [Fin 21, Fin 0])])"
proof -
  have o: "order ((small_params 40)\<lparr>order := 1\<rparr>) = 1" by simp
  show ?thesis
    unfolding backward_step_def o
    by (simp add: getitem_def ebind_def small_scale order_one_basis order_one_ridge where_fn_def)
qed

lemma order_one_backward_pass:
  "backward_pass ((small_params 40)\<lparr>order := 1\<rparr>) [(0, [40, 40]), (1, [38, 60]), (2, [19, 60])]
       [(1, [2, 0]), (2, [21, 0])] =
     Inr ([(2, [21, 0]), (1, [21, 0])],
          [(2, [Fin 0, Fin 0]), (1, [Fin 21, Fin 0])])"
proof -
  have p: "maturity_T ((small_params 40)\<lparr>order := 1\<rparr>) = 2" "m_steps ((small_params 40)\<lparr>order := 1\<rparr>) = 2"
    "rate_r ((small_params 40)\<lparr>order := 1\<rparr>) = 0" "n_paths ((small_params 40)\<lparr>order := 1\<rparr>) = 2"
    by (simp_all add: small_params_def)
  show ?thesis
    unfolding backward_pass_def order_one_t_span p Let_def
    by (simp add: getitem_def ebind_def order_one_backward_step numeral_2_eq_2)
qed

text \<open>
  C3 on the small run with strike 40, once with \<open>order = 1\<close> and once with \<open>order = 2\<close>. At the
  first date the prices are \<open>[38, 60]\<close>, scaled to \<open>[-1, 1]\<close>, and the next value is \<open>[21, 0]\<close>;
  in both runs the basis has the two columns \<open>1\<close> and \<open>x\<close>. With \<open>order = 2\<close> the continuation
  value is the ridge fit \<open>[7/17, 0]\<close> (coefficients \<open>21/102\<close> and \<open>-21/102\<close>, penalty 100), and
  the first path exercises: \<open>value = [2, 0]\<close>. With \<open>order = 1\<close> the identity \<open>torch.eye(1)\<close> is
  broadcast, so 100 is added to every entry of \<open>X\<^sup>T X\<close> and not to its diagonal; the
  continuation value is \<open>[21, 0]\<close>, the data themselves and no ridge fit (on the single column
  \<open>1\<close> the ridge fit would be \<open>[21/102, 21/102]\<close>), and the first path does not exercise.
\<close>

theorem backward_order_one_example:
  "backward_tables ((small_params 40)\<lparr>order := 1\<rparr>) small_draws =
     Inr ([(2, [21, 0]), (1, [21, 0])], [(2, [Fin 0, Fin 0]), (1, [Fin 21, Fin 0])])
   \<and> backward_tables (small_params 40) small_draws =
     Inr ([(2, [21, 0]), (1, [2, 0])], [(2, [Fin 0, Fin 0]), (1, [Fin (7 / 17), Fin 0])])"
proof -
  have "cashflow_table (small_params 40) [(0, [40, 40]), (1, [38, 60]), (2, [19, 60])]
      = Inr [(1, [2, 0]), (2, [21, 0])]"
    by (simp add: small_cashflow)
  then have "backward_tables (small_params 40) small_draws =
     Inr ([(2, [21, 0]), (1, [2, 0])], [(2, [Fin 0, Fin 0]), (1, [Fin (7 / 17), Fin 0])])"
    unfolding backward_tables_def small_simulation
    by (simp add: ebind_def small_backward_pass)
  moreover have "backward_tables ((small_params 40)\<lparr>order := 1\<rparr>) small_draws =
     Inr ([(2, [21, 0]), (1, [21, 0])], [(2, [Fin 0, Fin 0]), (1, [Fin 21, Fin 0])])"
    unfolding backward_tables_def order_one_simulation
    by (simp add: ebind_def order_one_cashflow order_one_backward_pass)
  ultimately show ?thesis by simp
qed

subsection \<open>The price and the strike\<close>


lemma getitem_unique: "getitem d k = Inr x \<Longrightarrow> getitem d k = Inr y \<Longrightarrow> x = y"
  by simp




subsection \<open>Invalid parameters\<close>

lemma advance_order: "advance (p\<lparr>order := k\<rparr>) = advance p"
  by (intro ext) (simp add: advance_def)

lemma lsmc_one_step:
  assumes "m_steps p = 1" and "0 < maturity_T p" and "0 < n_paths p"
    and "round6 (maturity_T p) = maturity_T p"
  shows "lsmc p rnd =
     Inr (Fin (1 / real (nat (n_paths p)) *
        (\<Sum>i<nat (n_paths p). max (strike_K p -
            advance p (maturity_T p) (map (rnd 1) [0..<nat (n_paths p)])
              (replicate (nat (n_paths p)) (Spot p)) ! i) 0)))"
proof -
  define n S_T where "n = nat (n_paths p)"
    and "S_T = advance p (maturity_T p) (map (rnd 1) [0..<nat (n_paths p)])
             (replicate (nat (n_paths p)) (Spot p))"
  have lS: "length S_T = n" by (simp add: S_T_def n_def length_advance)
  let ?s = "Tensor2 n 1 (map (\<lambda>s. [max (strike_K p - s) 0]) S_T)"
  from assms have sel: "selected_payoff p rnd = Inr ?s"
    using selected_one_step [of p rnd] by (simp add: n_def S_T_def)
  have h: "wf_tensor ?s" "m_steps p = int (ncols ?s)" "0 < ncols ?s"
    "n_paths p = int (nrows ?s)" "0 < nrows ?s"
    using assms lS by (simp_all add: wf_tensor_def list_all_iff n_def)
  from price_of_sum [OF h] assms(1) lS
  have "lsmc p rnd = Inr (Fin (1 / real n * (\<Sum>i<n. max (strike_K p - S_T ! i) 0)))"
    by (simp add: lsmc_def sel ebind_def)
  then show ?thesis unfolding n_def S_T_def .
qed

lemma lsmc_one_step_no_path:
  assumes "m_steps p = 1" and "0 < maturity_T p" and "n_paths p = 0"
    and "round6 (maturity_T p) = maturity_T p"
  shows "lsmc p rnd = Inr NaN"
  using selected_one_step [of p rnd] assms
  by (simp add: lsmc_def ebind_def price_of_def column_def fdiv_def inf_of_sign_def advance_def)

text \<open>
  C10 on the run with one path, one time step and the polynomial order 0: no error, the price
  is \<open>40 - 38.16 = 1.84\<close>.
\<close>

theorem order_not_validated_example: "lsmc one_step_params zero_draws = Inr (Fin (46 / 25))"
proof -
  have "m_steps one_step_params = 1" "0 < maturity_T one_step_params"
    "0 < n_paths one_step_params" "round6 (maturity_T one_step_params) = maturity_T one_step_params"
    by (simp_all add: one_step_params_def)
  from lsmc_one_step [OF this, of zero_draws] show ?thesis
    by (simp add: one_step_params_def zero_draws_def advance_def)
qed

text \<open>
  C10, as the code has it (positive maturity). The run validates nothing and has no error of
  its own. With zero time steps it fails with ZeroDivisionError when \<open>\<Delta>t = T / m\<close> is computed;
  with a negative number of paths (and steps not zero) with RuntimeError when the first tensor
  is built; with a negative number of steps (and no negative number of paths) with KeyError at
  \<open>cashflow[T]\<close>, after the empty simulation loop. With one time step, the run fails with
  KeyError when the maturity is not its own rounding to six decimals (the dictionaries are
  keyed by the rounded label, \<open>cashflow[T]\<close> by \<open>T\<close>); otherwise it returns NaN when there is
  no path, and with at least one path it returns the mean of the terminal payoffs, whatever the
  polynomial order: an order that is not positive is not refused. The ridge penalty is no
  parameter of the run.
\<close>

theorem no_parameter_validation:
  assumes "0 < maturity_T p"
  shows "(m_steps p = 0 \<longrightarrow> lsmc p rnd = Inl ZeroDivisionError)
    \<and> (m_steps p \<noteq> 0 \<and> n_paths p < 0 \<longrightarrow> lsmc p rnd = Inl RuntimeError)
    \<and> (m_steps p < 0 \<and> 0 \<le> n_paths p \<longrightarrow> lsmc p rnd = Inl KeyError)
    \<and> (m_steps p = 1 \<and> 0 \<le> n_paths p \<and> round6 (maturity_T p) \<noteq> maturity_T p \<longrightarrow>
          lsmc p rnd = Inl KeyError)
    \<and> (m_steps p = 1 \<and> n_paths p = 0 \<and> round6 (maturity_T p) = maturity_T p \<longrightarrow>
          lsmc p rnd = Inr NaN)
    \<and> (m_steps p = 1 \<and> 0 < n_paths p \<and> round6 (maturity_T p) = maturity_T p \<longrightarrow>
          (\<forall>k. lsmc (p\<lparr>order := k\<rparr>) rnd =
             Inr (Fin (1 / real (nat (n_paths p)) *
                (\<Sum>i<nat (n_paths p). max (strike_K p -
                    advance p (maturity_T p) (map (rnd 1) [0..<nat (n_paths p)])
                      (replicate (nat (n_paths p)) (Spot p)) ! i) 0)))))"
proof -
  have "lsmc (p\<lparr>order := k\<rparr>) rnd =
      Inr (Fin (1 / real (nat (n_paths p)) *
        (\<Sum>i<nat (n_paths p). max (strike_K p -
            advance p (maturity_T p) (map (rnd 1) [0..<nat (n_paths p)])
              (replicate (nat (n_paths p)) (Spot p)) ! i) 0)))"
    if "m_steps p = 1" and "0 < n_paths p" and "round6 (maturity_T p) = maturity_T p" for k
    using lsmc_one_step [of "p\<lparr>order := k\<rparr>" rnd] that assms by (simp add: advance_order)
  then show ?thesis
    using lsmc_zero_steps [of p rnd] lsmc_negative_paths [of p rnd]
      lsmc_negative_steps [of p rnd] lsmc_one_step_no_path [of p rnd]
      lsmc_one_step_key [of p rnd] assms
    by blast
qed

theorem no_parameter_validation_witness:
  "0 < maturity_T one_step_params
   \<and> lsmc (one_step_params\<lparr>m_steps := 0\<rparr>) zero_draws = Inl ZeroDivisionError
   \<and> lsmc (one_step_params\<lparr>n_paths := - 1\<rparr>) zero_draws = Inl RuntimeError
   \<and> lsmc (one_step_params\<lparr>m_steps := - 1\<rparr>) zero_draws = Inl KeyError
   \<and> lsmc (one_step_params\<lparr>maturity_T := 1 / 3\<rparr>) zero_draws = Inl KeyError
   \<and> lsmc (one_step_params\<lparr>n_paths := 0\<rparr>) zero_draws = Inr NaN
   \<and> lsmc (one_step_params\<lparr>order := - 3\<rparr>) zero_draws = Inr (Fin (46 / 25))"
proof -
  have r: "round6 (1 / 3) \<noteq> 1 / 3"
    by (simp add: round6_def rint_def)
  have "lsmc (one_step_params\<lparr>m_steps := 0\<rparr>) zero_draws = Inl ZeroDivisionError"
    using no_parameter_validation [of "one_step_params\<lparr>m_steps := 0\<rparr>" zero_draws]
    by (simp add: one_step_params_def)
  moreover have "lsmc (one_step_params\<lparr>n_paths := - 1\<rparr>) zero_draws = Inl RuntimeError"
    using no_parameter_validation [of "one_step_params\<lparr>n_paths := - 1\<rparr>" zero_draws]
    by (simp add: one_step_params_def)
  moreover have "lsmc (one_step_params\<lparr>m_steps := - 1\<rparr>) zero_draws = Inl KeyError"
    using no_parameter_validation [of "one_step_params\<lparr>m_steps := - 1\<rparr>" zero_draws]
    by (simp add: one_step_params_def)
  moreover have "lsmc (one_step_params\<lparr>maturity_T := 1 / 3\<rparr>) zero_draws = Inl KeyError"
    using no_parameter_validation [of "one_step_params\<lparr>maturity_T := 1 / 3\<rparr>" zero_draws] r
    by (simp add: one_step_params_def)
  moreover have "lsmc (one_step_params\<lparr>n_paths := 0\<rparr>) zero_draws = Inr NaN"
    using no_parameter_validation [of "one_step_params\<lparr>n_paths := 0\<rparr>" zero_draws]
    by (simp add: one_step_params_def)
  moreover have "lsmc (one_step_params\<lparr>order := - 3\<rparr>) zero_draws = Inr (Fin (46 / 25))"
    using no_parameter_validation [of one_step_params zero_draws]
    by (simp add: one_step_params_def zero_draws_def advance_def)
  ultimately show ?thesis
    by (simp add: one_step_params_def)
qed

text \<open>
  The rounded labels also stop runs whose parameters are all positive: with \<open>T = 1\<close> and
  \<open>m = 3\<close> the labels are \<open>0.333333\<close>, \<open>0.666667\<close> and \<open>1\<close>, and at the second date the loop looks
  for \<open>S[0.333334]\<close>. With the notebook's \<open>T = 1\<close> and \<open>m = 10\<close> every label of the simulation
  loop is found.
\<close>

lemma three_steps_t_span:
  "t_span (p\<lparr>maturity_T := 1, m_steps := 3\<rparr>) = [333333 / 1000000, 666667 / 1000000, 1]"
  by (simp add: t_span_def arange_def upt_conv_Cons round6_def rint_def)

lemma three_steps_key_error:
  assumes "0 \<le> n_paths p"
  shows "lsmc (p\<lparr>maturity_T := 1, m_steps := 3\<rparr>) rnd = Inl KeyError"
proof -
  have "simulation (p\<lparr>maturity_T := 1, m_steps := 3\<rparr>) rnd = Inl KeyError"
    unfolding simulation_def three_steps_t_span using assms
    by (simp add: simulate_step_def getitem_def ebind_def round6_def rint_def Let_def)
  then show ?thesis by (simp add: lsmc_def selected_payoff_def ebind_def)
qed

lemma notebook_t_span:
  "t_span (p\<lparr>maturity_T := 1, m_steps := 10\<rparr>) =
     [1 / 10, 2 / 10, 3 / 10, 4 / 10, 5 / 10, 6 / 10, 7 / 10, 8 / 10, 9 / 10, 1]"
  by (simp add: t_span_def arange_def upt_conv_Cons round6_def rint_def)

lemma notebook_labels:
  assumes "0 \<le> n_paths p"
  shows "\<exists>S. simulation (p\<lparr>maturity_T := 1, m_steps := 10\<rparr>) rnd = Inr S
      \<and> map fst S = 0 # t_span (p\<lparr>maturity_T := 1, m_steps := 10\<rparr>)"
  unfolding simulation_def notebook_t_span using assms
  by (simp add: simulate_step_def getitem_def ebind_def round6_def rint_def Let_def)

subsection \<open>The ridge regression\<close>

text \<open>
  C4 on two inputs. First a design matrix with two columns while the notebook's \<open>order\<close> is 3:
  the \<open>2 \<times> 2\<close> matrix \<open>X\<^sup>T X\<close> and the \<open>3 \<times> 3\<close> identity cannot be added, and the call
  raises. Then a matrix with two equal columns, with \<open>order\<close> 2 and the penalty 0: the normal
  equations have solutions, but \<open>X\<^sup>T X\<close> is singular and the solver raises.
\<close>

theorem ridge_regression_failures:
  "ridge_regression 3 (Tensor2 2 2 [[Fin 1, Fin (- 1)], [Fin 1, Fin 1]]) [Fin 21, Fin 0] 100
     = Inl RuntimeError
   \<and> ridge_regression 2 (Tensor2 1 2 [[Fin 1, Fin 1]]) [Fin 1] 0 = Inl RuntimeError"
  by (simp add: ridge_regression_def eye_def reshape_col_def transpose_t_def matmul_def badd_def
      bdim_def tmap_def torch_solve_def all_finite_def squeeze_def column_def tsum_def ebind_def
      upt_conv_Cons numeral_2_eq_2 Let_def)

subsection \<open>The ridge regression with an identity of the right size\<close>

text \<open>
  When \<open>order\<close> is the number \<open>M\<close> of columns of a design matrix \<open>X\<close> with finite entries, a
  result of \<open>ridge_regression\<close> is the ridge fit: \<open>X \<beta>\<close> for a \<open>\<beta>\<close> that solves the normal
  equations \<open>(X\<^sup>T X + \<lambda> I) \<beta> = X\<^sup>T Y\<close>.
\<close>

lemma pivot_split_Some:
  assumes "pivot_split eqs = Some (p, others)"
  shows "hd p \<noteq> 0 \<and> set eqs = insert p (set others) \<and> Suc (length others) = length eqs"
  using assms
proof (induction eqs arbitrary: others)
  case Nil
  then show ?case by simp
next
  case (Cons r rs)
  show ?case
  proof (cases "hd r \<noteq> 0")
    case True
    with Cons.prems show ?thesis by auto
  next
    case False
    with Cons.prems obtain os where ps: "pivot_split rs = Some (p, os)" and o: "others = r # os"
      by (auto split: option.splits)
    from Cons.IH [OF ps] o show ?thesis by auto
  qed
qed

lemma solve_aug_sound:
  assumes "solve_aug k eqs = Some sol" and "length eqs = k" and "\<forall>r\<in>set eqs. length r = k + q"
  shows "length sol = k \<and> (\<forall>s\<in>set sol. length s = q)
    \<and> (\<forall>r\<in>set eqs. \<forall>c<q. (\<Sum>i<k. r ! i * sol ! i ! c) = r ! (k + c))"
  using assms
proof (induction k arbitrary: eqs sol)
  case 0
  then show ?case by simp
next
  case (Suc k)
  from Suc.prems(1) obtain p others where ps: "pivot_split eqs = Some (p, others)"
    by (auto split: option.splits)
  define pn where "pn = map (\<lambda>v. v / hd p) (tl p)"
  define reduced where "reduced = map (\<lambda>r. map2 (\<lambda>a b. a - hd r * b) (tl r) pn) others"
  from Suc.prems(1) ps obtain sol' where
    rec: "solve_aug k reduced = Some sol'"
    and sol: "sol = map (\<lambda>c. pn ! (k + c) - sum_list (map (\<lambda>i. pn ! i * sol' ! i ! c) [0..<k]))
                [0..<length pn - k] # sol'"
    by (auto simp: Let_def pn_def reduced_def split: option.splits)
  from pivot_split_Some [OF ps] have hp: "hd p \<noteq> 0" and eqs: "set eqs = insert p (set others)"
    and lo: "Suc (length others) = length eqs" by simp_all
  from eqs Suc.prems(3) have lp: "length p = Suc (k + q)"
    and lr: "\<forall>r\<in>set others. length r = Suc (k + q)" by auto
  then have lpn: "length pn = k + q" by (simp add: pn_def)
  have lred: "length reduced = k" using lo Suc.prems(2) by (simp add: reduced_def)
  have rred: "\<forall>r\<in>set reduced. length r = k + q"
    using lr lpn by (auto simp: reduced_def)
  note IH = Suc.IH [OF rec lred rred]
  define x1 where "x1 c = pn ! (k + c) - (\<Sum>i<k. pn ! i * sol' ! i ! c)" for c
  have solc: "sol ! 0 ! c = x1 c" if "c < q" for c
    using that lpn by (simp add: sol x1_def interv_sum_list_conv_sum_set_nat atLeast0LessThan)
  have soli: "sol ! Suc i = sol' ! i" for i by (simp add: sol)
  have split: "(\<Sum>i<Suc k. r ! i * sol ! i ! c) = hd r * x1 c + (\<Sum>i<k. tl r ! i * sol' ! i ! c)"
    if "c < q" and "length r = Suc (k + q)" for r c
  proof -
    from that(2) obtain a as where r: "r = a # as" by (cases r) auto
    have "(\<Sum>i<Suc k. r ! i * sol ! i ! c) =
        r ! 0 * sol ! 0 ! c + (\<Sum>i<k. r ! Suc i * sol ! Suc i ! c)"
      by (rule sum.lessThan_Suc_shift)
    then show ?thesis
      by (simp add: solc [OF that(1)] soli r)
  qed
  have pivot_row: "(\<Sum>i<Suc k. p ! i * sol ! i ! c) = p ! (Suc k + c)" if c: "c < q" for c
  proof -
    from lp obtain a as where p: "p = a # as" by (cases p) auto
    with hp have a: "a \<noteq> 0" by simp
    have tl: "tl p ! i = hd p * pn ! i" if "i < k + q" for i
      using that lp a by (simp add: pn_def p)
    have "(\<Sum>i<k. tl p ! i * sol' ! i ! c) = hd p * (\<Sum>i<k. pn ! i * sol' ! i ! c)"
      using tl by (simp add: sum_distrib_left mult.assoc)
    with split [OF c lp] have "(\<Sum>i<Suc k. p ! i * sol ! i ! c) = hd p * pn ! (k + c)"
      by (simp add: x1_def algebra_simps)
    also have "\<dots> = tl p ! (k + c)" using tl [of "k + c"] c by simp
    also have "\<dots> = p ! (Suc k + c)" by (simp add: p)
    finally show ?thesis .
  qed
  have other_row: "(\<Sum>i<Suc k. r ! i * sol ! i ! c) = r ! (Suc k + c)"
    if r: "r \<in> set others" and c: "c < q" for r c
  proof -
    from lr r have len: "length r = Suc (k + q)" by simp
    then obtain a as where ras: "r = a # as" by (cases r) auto
    let ?r' = "map2 (\<lambda>a b. a - hd r * b) (tl r) pn"
    have r': "?r' \<in> set reduced" using r by (auto simp: reduced_def)
    have nth: "?r' ! i = tl r ! i - hd r * pn ! i" if "i < k + q" for i
      using that len lpn by simp
    from IH r' c have "(\<Sum>i<k. ?r' ! i * sol' ! i ! c) = ?r' ! (k + c)" by blast
    then have "(\<Sum>i<k. (tl r ! i - hd r * pn ! i) * sol' ! i ! c) = tl r ! (k + c) - hd r * pn ! (k + c)"
      using nth c by simp
    then have "(\<Sum>i<k. tl r ! i * sol' ! i ! c) =
        tl r ! (k + c) - hd r * pn ! (k + c) + hd r * (\<Sum>i<k. pn ! i * sol' ! i ! c)"
      by (simp add: algebra_simps sum_subtractf sum_distrib_left)
    with split [OF c len] have "(\<Sum>i<Suc k. r ! i * sol ! i ! c) = tl r ! (k + c)"
      by (simp add: x1_def algebra_simps)
    then show ?thesis by (simp add: ras)
  qed
  have "length sol = Suc k" using IH by (simp add: sol)
  moreover have "\<forall>s\<in>set sol. length s = q" using IH lpn by (simp add: sol)
  moreover have "\<forall>r\<in>set eqs. \<forall>c<q. (\<Sum>i<Suc k. r ! i * sol ! i ! c) = r ! (Suc k + c)"
    using pivot_row other_row eqs by auto
  ultimately show ?case by blast
qed

lemma tsum_Fin: "tsum (map Fin xs) = Fin (sum_list xs)"
  by (induction xs) (simp_all add: tsum_def)

lemma map2_tmul_Fin: "map2 tmul (map Fin a) (map Fin b) = map Fin (map2 (*) a b)"
  by (induction a arbitrary: b) (auto simp: zip_Cons1 split: list.splits)

lemma tsum_dot: "tsum (map2 tmul (map Fin a) (map Fin b)) = Fin (dot a b)"
  unfolding map2_tmul_Fin tsum_Fin dot_def ..

lemma dot_sum: "length a = length b \<Longrightarrow> dot a b = (\<Sum>i<length a. a ! i * b ! i)"
proof -
  assume "length a = length b"
  then have "map2 (*) a b = map (\<lambda>i. a ! i * b ! i) [0..<length a]"
    by (intro nth_equalityI) simp_all
  then show ?thesis
    by (simp add: dot_def interv_sum_list_conv_sum_set_nat atLeast0LessThan)
qed

lemma column_tmap:
  assumes "wf_tensor X" and "j < ncols X"
  shows "column j (tmap Fin X) = map Fin (column j X)"
  using assms by (auto simp: column_def tmap_def wf_tensor_def list_all_iff)

lemma wf_tmap: "wf_tensor (tmap f X) = wf_tensor X"
  by (simp add: wf_tensor_def tmap_def list_all_iff)

lemma matmul_Fin:
  assumes "wf_tensor B" and "ncols A = nrows B"
  shows "matmul (tmap Fin A) (tmap Fin B) = Inr (tmap Fin (rmatmul A B))"
proof -
  have "map (\<lambda>j. tsum (map2 tmul (map Fin row) (column j (tmap Fin B)))) [0..<ncols B]
      = map Fin (map (\<lambda>j. dot row (column j B)) [0..<ncols B])" for row
    using assms(1) by (simp add: column_tmap tsum_dot)
  then show ?thesis
    using assms(2) by (simp add: matmul_def rmatmul_def tmap_def comp_def)
qed

lemma transpose_tmap:
  assumes "wf_tensor X"
  shows "transpose_t (tmap Fin X) = tmap Fin (transpose_t X)"
proof -
  have "map (\<lambda>j. column j (tmap Fin X)) [0..<ncols X] = map (\<lambda>j. map Fin (column j X)) [0..<ncols X]"
    using assms by (simp add: column_tmap)
  then show ?thesis
    by (simp add: transpose_t_def tmap_def comp_def)
qed

lemma reshape_col_Fin: "reshape_col (map Fin Y) = tmap Fin (reshape_col Y)"
  by (simp add: reshape_col_def tmap_def comp_def)

lemma eye_scaled:
  "eye (int M) = Inr I \<Longrightarrow> tmap (tmul (Fin lam)) I = tmap Fin (scaled_identity M lam)"
  by (auto simp: eye_def tmap_def scaled_identity_def)

lemma eye_nat: "eye (int M) = Inr (Tensor2 M M (map (\<lambda>i. map (\<lambda>j. if i = j then Fin 1 else Fin 0) [0..<M]) [0..<M]))"
  by (simp add: eye_def)

lemma rows_tmap_nth:
  "wf_tensor A \<Longrightarrow> i < nrows A \<Longrightarrow> j < ncols A \<Longrightarrow> rows (tmap f A) ! i ! j = f (rows A ! i ! j)"
  by (simp add: wf_tensor_def tmap_def list_all_length)

lemma badd_Fin:
  assumes "wf_tensor A" and "wf_tensor B" and "nrows A = nrows B" and "ncols A = ncols B"
  shows "badd (tmap Fin A) (tmap Fin B) = Inr (tmap Fin (radd A B))"
proof -
  have "map (\<lambda>i. map (\<lambda>j.
          tadd (rows (tmap Fin A) ! (if nrows A = 1 then 0 else i) ! (if ncols A = 1 then 0 else j))
               (rows (tmap Fin B) ! (if nrows B = 1 then 0 else i) ! (if ncols B = 1 then 0 else j)))
          [0..<ncols A]) [0..<nrows A]
      = map (\<lambda>i. map (\<lambda>j. Fin (rows A ! i ! j + rows B ! i ! j)) [0..<ncols A]) [0..<nrows A]"
    using assms by (intro map_cong refl) (auto simp: rows_tmap_nth)
  then show ?thesis
    using assms(3,4) by (simp add: badd_def bdim_def radd_def tmap_def comp_def)
qed

lemma torch_solve_Fin:
  assumes "nrows A = ncols A" and "nrows B = nrows A"
  shows "torch_solve (tmap Fin B) (tmap Fin A) =
     (case solve_aug (nrows A) (map2 (@) (rows A) (rows B)) of
        None \<Rightarrow> Inl RuntimeError
      | Some sol \<Rightarrow> Inr (tmap Fin (Tensor2 (nrows B) (ncols B) sol)))"
proof -
  have fin: "all_finite (tmap Fin M)" for M :: "real tensor2"
    by (simp add: all_finite_def tmap_def list_all_iff)
  have thefin: "map (map the_fin) (rows (tmap Fin M)) = rows M" for M :: "real tensor2"
    by (simp add: tmap_def comp_def)
  show ?thesis
    using assms by (simp add: torch_solve_def fin thefin) (simp add: tmap_def split: option.splits)
qed

lemma rmatmul_entry:
  assumes "i < length (rows A)" and "j < ncols B"
  shows "rows (rmatmul A B) ! i ! j = dot (rows A ! i) (column j B)"
  using assms by (simp add: rmatmul_def)

lemma ridge_regression_normal_equations:
  assumes wf: "wf_tensor X" and M: "ncols X = M" and lY: "length Y = nrows X"
    and rr: "ridge_regression (int M) (tmap Fin X) (map Fin Y) lam = Inr fit"
  shows "\<exists>\<beta>. length \<beta> = M
     \<and> (\<forall>j<M. (\<Sum>l<M. ((\<Sum>i<nrows X. rows X ! i ! j * rows X ! i ! l) + (if j = l then lam else 0)) * \<beta> ! l)
            = (\<Sum>i<nrows X. rows X ! i ! j * Y ! i))
     \<and> fit = map (\<lambda>i. Fin (\<Sum>l<M. rows X ! i ! l * \<beta> ! l)) [0..<nrows X]"
proof -
  define n where "n = nrows X"
  from wf have lr: "length (rows X) = n" and row: "\<And>i. i < n \<Longrightarrow> length (rows X ! i) = M"
    by (simp_all add: wf_tensor_def list_all_length n_def M)
  define Xt where "Xt = transpose_t X"
  define YY where "YY = reshape_col Y"
  define XtY where "XtY = rmatmul Xt YY"
  define XtX where "XtX = rmatmul Xt X"
  define A where "A = radd XtX (scaled_identity M lam)"
  have sh: "nrows Xt = M" "ncols Xt = n" "nrows YY = n" "ncols YY = 1" "length (rows Xt) = M"
    by (simp_all add: Xt_def YY_def transpose_t_def reshape_col_def M n_def lY)
  have wfYY: "wf_tensor YY" by (simp add: YY_def reshape_col_def wf_tensor_def list_all_iff)
  have e1: "matmul (transpose_t (tmap Fin X)) (reshape_col (map Fin Y)) = Inr (tmap Fin XtY)"
    unfolding transpose_tmap [OF wf] reshape_col_Fin XtY_def Xt_def [symmetric] YY_def [symmetric]
    by (rule matmul_Fin [OF wfYY]) (simp add: sh)
  have e2: "matmul (transpose_t (tmap Fin X)) (tmap Fin X) = Inr (tmap Fin XtX)"
    unfolding transpose_tmap [OF wf] XtX_def Xt_def [symmetric]
    by (rule matmul_Fin [OF wf]) (simp add: sh n_def)
  have shX: "nrows XtX = M" "ncols XtX = M" "nrows XtY = M" "ncols XtY = 1"
    "length (rows XtX) = M" "length (rows XtY) = M"
    by (simp_all add: XtX_def XtY_def rmatmul_def sh M)
  have wfXtX: "wf_tensor XtX"
    by (simp add: XtX_def rmatmul_def wf_tensor_def list_all_iff sh M)
  have wfI: "wf_tensor (scaled_identity M lam)"
    by (simp add: scaled_identity_def wf_tensor_def list_all_iff)
  have e3: "badd (tmap Fin XtX) (tmap (tmul (Fin lam)) I) = Inr (tmap Fin A)" if "eye (int M) = Inr I" for I
    unfolding eye_scaled [OF that] A_def
    by (rule badd_Fin [OF wfXtX wfI]) (simp_all add: shX scaled_identity_def)
  have shA: "nrows A = M" "ncols A = M" "length (rows A) = M"
    by (simp_all add: A_def radd_def shX)
  have wfA: "\<And>j. j < M \<Longrightarrow> length (rows A ! j) = M"
    by (simp add: A_def radd_def shX)
  have wfXtY: "\<And>j. j < M \<Longrightarrow> length (rows XtY ! j) = 1"
    by (simp add: XtY_def rmatmul_def sh)
  have ts: "torch_solve (tmap Fin XtY) (tmap Fin A) =
     (case solve_aug M (map2 (@) (rows A) (rows XtY)) of
        None \<Rightarrow> Inl RuntimeError
      | Some sol \<Rightarrow> Inr (tmap Fin (Tensor2 M 1 sol)))"
    using torch_solve_Fin [of A XtY] unfolding shA shX by simp
  from rr have "ebind (torch_solve (tmap Fin XtY) (tmap Fin A))
      (\<lambda>\<beta>. ebind (matmul (tmap Fin X) \<beta>) (\<lambda>fit. Inr (squeeze fit))) = Inr fit"
    unfolding ridge_regression_def Let_def e1 e2 eye_nat
    by (simp add: ebind_def e3 [OF eye_nat])
  then obtain sol where
    sv: "solve_aug M (map2 (@) (rows A) (rows XtY)) = Some sol"
    and mm: "ebind (matmul (tmap Fin X) (tmap Fin (Tensor2 M 1 sol))) (\<lambda>fit. Inr (squeeze fit)) = Inr fit"
    unfolding ts by (auto simp: ebind_def split: option.splits)
  let ?eqs = "map2 (@) (rows A) (rows XtY)"
  have leq: "length ?eqs = M" by (simp add: shA shX)
  have eqj: "?eqs ! j = rows A ! j @ rows XtY ! j" if "j < M" for j
    using that by (simp add: shA shX)
  have req: "\<forall>r\<in>set ?eqs. length r = M + 1"
  proof
    fix r assume "r \<in> set ?eqs"
    then obtain j where "j < M" "r = ?eqs ! j"
      using leq by (metis in_set_conv_nth)
    with eqj wfA wfXtY show "length r = M + 1" by simp
  qed
  from solve_aug_sound [OF sv leq req] have lsol: "length sol = M"
    and ssol: "\<forall>s\<in>set sol. length s = 1"
    and ssat: "\<forall>r\<in>set ?eqs. \<forall>c<1. (\<Sum>i<M. r ! i * sol ! i ! c) = r ! (M + c)"
    by simp_all
  define \<beta> where "\<beta> = map (\<lambda>s. s ! 0) sol"
  have lb: "length \<beta> = M" by (simp add: \<beta>_def lsol)
  have bl: "\<beta> ! l = sol ! l ! 0" if "l < M" for l using that by (simp add: \<beta>_def lsol)
  have col: "column j X = map (\<lambda>i. rows X ! i ! j) [0..<n]" for j
    by (rule nth_equalityI) (simp_all add: column_def lr)
  have XtX_e: "rows XtX ! j ! l = (\<Sum>i<n. rows X ! i ! j * rows X ! i ! l)" if "j < M" "l < M" for j l
  proof -
    have "rows XtX ! j ! l = dot (column j X) (column l X)"
      using that by (simp add: XtX_def rmatmul_def Xt_def transpose_t_def M)
    also have "\<dots> = (\<Sum>i<n. rows X ! i ! j * rows X ! i ! l)"
      using dot_sum [of "column j X" "column l X"] by (simp add: col)
    finally show ?thesis .
  qed
  have XtY_e: "rows XtY ! j ! 0 = (\<Sum>i<n. rows X ! i ! j * Y ! i)" if "j < M" for j
  proof -
    have cY: "column 0 YY = Y"
      by (rule nth_equalityI) (simp_all add: column_def YY_def reshape_col_def)
    have "rows XtY ! j ! 0 = dot (column j X) (column 0 YY)"
      using that by (simp add: XtY_def rmatmul_def Xt_def transpose_t_def M YY_def reshape_col_def)
    also have "\<dots> = (\<Sum>i<n. rows X ! i ! j * Y ! i)"
      using dot_sum [of "column j X" Y] by (simp add: col cY lY n_def)
    finally show ?thesis .
  qed
  have A_e: "rows A ! j ! l = (\<Sum>i<n. rows X ! i ! j * rows X ! i ! l) + (if j = l then lam else 0)"
    if "j < M" "l < M" for j l
    using that XtX_e [OF that] by (simp add: A_def radd_def shX scaled_identity_def)
  have normal: "(\<Sum>l<M. ((\<Sum>i<n. rows X ! i ! j * rows X ! i ! l) + (if j = l then lam else 0)) * \<beta> ! l)
      = (\<Sum>i<n. rows X ! i ! j * Y ! i)" if j: "j < M" for j
  proof -
    from j leq have "?eqs ! j \<in> set ?eqs" by (metis nth_mem)
    with ssat have "(\<Sum>i<M. ?eqs ! j ! i * sol ! i ! 0) = ?eqs ! j ! (M + 0)" by blast
    moreover have "?eqs ! j ! l = rows A ! j ! l" if "l < M" for l
      using that j by (simp add: eqj wfA nth_append)
    moreover have "?eqs ! j ! (M + 0) = rows XtY ! j ! 0"
      using j by (simp add: eqj wfA nth_append)
    ultimately have "(\<Sum>l<M. rows A ! j ! l * sol ! l ! 0) = rows XtY ! j ! 0" by simp
    then show ?thesis
      using j by (simp add: A_e bl XtY_e)
  qed
  let ?B = "Tensor2 M 1 sol"
  have wfB: "wf_tensor ?B" using lsol ssol by (simp add: wf_tensor_def list_all_iff)
  have "matmul (tmap Fin X) (tmap Fin ?B) = Inr (tmap Fin (rmatmul X ?B))"
    by (rule matmul_Fin [OF wfB]) (simp add: M)
  with mm have fit: "fit = squeeze (tmap Fin (rmatmul X ?B))" by (simp add: ebind_def)
  have cB: "column 0 (Tensor2 a b sol) = \<beta>" for a b by (simp add: column_def \<beta>_def)
  have "squeeze (tmap Fin (rmatmul X ?B)) = map (\<lambda>row. Fin (dot row \<beta>)) (rows X)"
    by (simp add: squeeze_def tmap_def rmatmul_def cB comp_def concat_map_singleton)
  also have "\<dots> = map (\<lambda>i. Fin (\<Sum>l<M. rows X ! i ! l * \<beta> ! l)) [0..<n]"
  proof (rule nth_equalityI)
    show "length (map (\<lambda>row. Fin (dot row \<beta>)) (rows X))
        = length (map (\<lambda>i. Fin (\<Sum>l<M. rows X ! i ! l * \<beta> ! l)) [0..<n])"
      by (simp add: lr)
  next
    fix i assume "i < length (map (\<lambda>row. Fin (dot row \<beta>)) (rows X))"
    then have i: "i < n" by (simp add: lr)
    with dot_sum [of "rows X ! i" \<beta>] row [OF i] lb lr
    show "map (\<lambda>row. Fin (dot row \<beta>)) (rows X) ! i
        = map (\<lambda>i. Fin (\<Sum>l<M. rows X ! i ! l * \<beta> ! l)) [0..<n] ! i"
      by simp
  qed
  finally have "fit = map (\<lambda>i. Fin (\<Sum>l<M. rows X ! i ! l * \<beta> ! l)) [0..<n]"
    by (simp add: fit)
  with lb normal show ?thesis
    unfolding n_def by blast
qed

end
